theory Spec2Isabelle
  imports Main "HOL-Library.AList"
begin

section \<open>JavaScript values and completions\<close>

text \<open>
  The repository wraps browser document nodes in JavaScript classes. Every method is
  embedded as a function from the handle and the world (document tree and object store)
  to a completion, the handle and the world after the call. An exception does not undo
  the mutations made before it, so an abrupt completion also carries the state reached.
  Calls of \<^verbatim>\<open>console.log\<close>, \<^verbatim>\<open>console.warn\<close> and \<^verbatim>\<open>console.trace\<close> have no effect on
  that state and are left out.
\<close>

datatype js_error = TypeError | ReferenceError | InvalidCharacterError | HierarchyRequestError

datatype 'a completion = Normal 'a | Abrupt js_error

text \<open>Primitive values, as they occur as property values of an attribute mapping.\<close>

datatype jsprim = PUndefined | PNull | PBool bool | PStr string

text \<open>
  Values held by handle fields and passed as arguments: primitives, references to
  document nodes and references to plain objects (attribute mappings) of the object store.
\<close>

datatype jsvalue = Undefined | Null | Bool bool | Str string | NodeRef nat | ObjRef nat

text \<open>
  The argument of a parent setter: a value, the receiving handle itself (\<open>This\<close>, so that
  the aliasing of \<^verbatim>\<open>parent\<close> and \<^verbatim>\<open>this\<close> is kept), another legacy handle (by identity) or
  another handle of the current class (by identity, with its \<^verbatim>\<open>element\<close> field).
\<close>

datatype handle_arg = Value jsvalue | This | OtherLegacy nat | OtherTag nat jsvalue

fun prim_truthy :: "jsprim \<Rightarrow> bool" where
  "prim_truthy PUndefined = False"
| "prim_truthy PNull = False"
| "prim_truthy (PBool b) = b"
| "prim_truthy (PStr s) = (s \<noteq> [])"

fun truthy :: "jsvalue \<Rightarrow> bool" where
  "truthy Undefined = False"
| "truthy Null = False"
| "truthy (Bool b) = b"
| "truthy (Str s) = (s \<noteq> [])"
| "truthy (NodeRef n) = True"
| "truthy (ObjRef r) = True"

fun arg_truthy :: "handle_arg \<Rightarrow> bool" where
  "arg_truthy (Value v) = truthy v"
| "arg_truthy This = True"
| "arg_truthy (OtherLegacy i) = True"
| "arg_truthy (OtherTag i e) = True"

text \<open>ToString, as the platform applies it to an attribute value.\<close>

fun prim_to_string :: "jsprim \<Rightarrow> string" where
  "prim_to_string PUndefined = ''undefined''"
| "prim_to_string PNull = ''null''"
| "prim_to_string (PBool b) = (if b then ''true'' else ''false'')"
| "prim_to_string (PStr s) = s"

text \<open>ToString of a value that is not a node (the conversion \<^verbatim>\<open>ParentNode.append\<close> applies).\<close>

fun to_string :: "jsvalue \<Rightarrow> string" where
  "to_string Undefined = ''undefined''"
| "to_string Null = ''null''"
| "to_string (Bool b) = (if b then ''true'' else ''false'')"
| "to_string (Str s) = s"
| "to_string (NodeRef n) = ''[object Node]''"
| "to_string (ObjRef r) = ''[object Object]''"

section \<open>Strings: ASCII case and names\<close>

definition upper_case :: string where
  "upper_case = ''ABCDEFGHIJKLMNOPQRSTUVWXYZ''"

definition lower_case :: string where
  "lower_case = ''abcdefghijklmnopqrstuvwxyz''"

definition ascii_lower :: "char \<Rightarrow> char" where
  "ascii_lower c = (case map_of (zip upper_case lower_case) c of Some d \<Rightarrow> d | None \<Rightarrow> c)"

definition ascii_upper :: "char \<Rightarrow> char" where
  "ascii_upper c = (case map_of (zip lower_case upper_case) c of Some d \<Rightarrow> d | None \<Rightarrow> c)"

text \<open>\<^verbatim>\<open>String.prototype.toLowerCase\<close>, on the ASCII strings the model covers.\<close>

definition toLowerCase :: "string \<Rightarrow> string" where
  "toLowerCase s = map ascii_lower s"

definition toUpperCase :: "string \<Rightarrow> string" where
  "toUpperCase s = map ascii_upper s"

text \<open>
  The platform refuses a tag or attribute name that is not a name. The model takes the
  XML Name production on ASCII: a letter, underscore or colon, followed by letters,
  digits, underscores, colons, hyphens and full stops.
\<close>

definition name_start_char :: "char \<Rightarrow> bool" where
  "name_start_char c = (c \<in> set upper_case \<or> c \<in> set lower_case \<or> c = CHR ''_'' \<or> c = CHR '':'')"

definition name_char :: "char \<Rightarrow> bool" where
  "name_char c = (name_start_char c \<or> c \<in> set ''0123456789'' \<or> c = CHR ''-'' \<or> c = CHR ''.'')"

fun valid_name :: "string \<Rightarrow> bool" where
  "valid_name [] = False"
| "valid_name (c # cs) = (name_start_char c \<and> list_all name_char cs)"

section \<open>The platform: the document tree\<close>

text \<open>
  The host document-tree API is not part of the repository; the primitives the classes
  call are modelled after the DOM standard for an HTML document. Nodes are numbered in
  the order of their creation. A node has a kind, an attribute list (in the order of
  the platform's \<^verbatim>\<open>attributes\<close> collection), a parent and an ordered child list. The
  Document node itself is not represented: \<open>body\<close> is the element \<^verbatim>\<open>document.body\<close>.
  Plain objects (attribute mappings) live in \<open>objects\<close>, their own enumerable properties
  in the order of \<^verbatim>\<open>Object.entries\<close>.
\<close>

datatype node_kind = Element string | Text string | Fragment

record world =
  kind_of :: "nat \<Rightarrow> node_kind option"
  attrs_of :: "nat \<Rightarrow> (string \<times> string) list"
  parent_of :: "nat \<Rightarrow> nat option"
  children_of :: "nat \<Rightarrow> nat list"
  next_node :: nat
  body :: nat
  objects :: "nat \<Rightarrow> (string \<times> jsprim) list"
  next_object :: nat

definition new_node :: "node_kind \<Rightarrow> world \<Rightarrow> world" where
  "new_node k w = w\<lparr>kind_of := (kind_of w)(next_node w \<mapsto> k),
                     attrs_of := (attrs_of w)(next_node w := []),
                     parent_of := (parent_of w)(next_node w := None),
                     children_of := (children_of w)(next_node w := []),
                     next_node := Suc (next_node w)\<rparr>"

text \<open>
  \<^verbatim>\<open>document.createElement\<close>: in an HTML document the local name is the argument in
  ASCII lower case; a string that is not a name raises InvalidCharacterError.
\<close>

definition createElement :: "string \<Rightarrow> world \<Rightarrow> nat completion \<times> world" where
  "createElement localName w =
     (if valid_name localName then (Normal (next_node w), new_node (Element (toLowerCase localName)) w)
      else (Abrupt InvalidCharacterError, w))"

definition createTextNode :: "string \<Rightarrow> world \<Rightarrow> nat \<times> world" where
  "createTextNode s w = (next_node w, new_node (Text s) w)"

definition createDocumentFragment :: "world \<Rightarrow> nat \<times> world" where
  "createDocumentFragment w = (next_node w, new_node Fragment w)"

fun is_element_kind :: "node_kind option \<Rightarrow> bool" where
  "is_element_kind (Some (Element t)) = True"
| "is_element_kind k = False"

text \<open>\<^verbatim>\<open>x instanceof HTMLElement\<close>: every element of an HTML document is one.\<close>

fun is_HTMLElement :: "world \<Rightarrow> jsvalue \<Rightarrow> bool" where
  "is_HTMLElement w (NodeRef n) = is_element_kind (kind_of w n)"
| "is_HTMLElement w v = False"

text \<open>\<^verbatim>\<open>parentNode\<close>, \<^verbatim>\<open>childNodes\<close>, and \<^verbatim>\<open>children\<close> (the element children only).\<close>

definition parentNode :: "world \<Rightarrow> nat \<Rightarrow> jsvalue" where
  "parentNode w n = (case parent_of w n of None \<Rightarrow> Null | Some p \<Rightarrow> NodeRef p)"

definition parentElement :: "world \<Rightarrow> nat \<Rightarrow> jsvalue" where
  "parentElement w n =
     (case parent_of w n of None \<Rightarrow> Null
      | Some p \<Rightarrow> if is_element_kind (kind_of w p) then NodeRef p else Null)"

definition element_children :: "world \<Rightarrow> nat \<Rightarrow> nat list" where
  "element_children w p = filter (\<lambda>c. is_element_kind (kind_of w c)) (children_of w p)"

text \<open>The inclusive ancestors of a node, following at most \<open>k\<close> parent links.\<close>

fun inclusive_ancestors :: "nat \<Rightarrow> world \<Rightarrow> nat \<Rightarrow> nat list" where
  "inclusive_ancestors 0 w n = [n]"
| "inclusive_ancestors (Suc k) w n =
     n # (case parent_of w n of None \<Rightarrow> [] | Some p \<Rightarrow> inclusive_ancestors k w p)"

text \<open>Removing a node from its parent (\<^verbatim>\<open>ChildNode.remove\<close>); a node without parent stays.\<close>

definition detach :: "nat \<Rightarrow> world \<Rightarrow> world" where
  "detach c w =
     (case parent_of w c of
        None \<Rightarrow> w
      | Some q \<Rightarrow> w\<lparr>children_of := (children_of w)(q := removeAll c (children_of w q)),
                     parent_of := (parent_of w)(c := None)\<rparr>)"

definition insert_last :: "nat \<Rightarrow> nat \<Rightarrow> world \<Rightarrow> world" where
  "insert_last p c w = w\<lparr>children_of := (children_of w)(p := children_of w p @ [c]),
                          parent_of := (parent_of w)(c := Some p)\<rparr>"

definition move_children :: "nat \<Rightarrow> nat \<Rightarrow> world \<Rightarrow> world" where
  "move_children p f w =
     w\<lparr>children_of := (children_of w)(f := [], p := children_of w p @ children_of w f),
       parent_of := (\<lambda>x. if x \<in> set (children_of w f) then Some p else parent_of w x)\<rparr>"

text \<open>
  \<^verbatim>\<open>Node.appendChild\<close>. The parent must be an element or a fragment, and the node must
  not be an inclusive ancestor of the parent (HierarchyRequestError otherwise, the tree
  unchanged). A fragment gives its children to the parent, in order, and stays empty and
  detached; any other node leaves its old parent and becomes the last child.
\<close>

definition appendChild :: "nat \<Rightarrow> nat \<Rightarrow> world \<Rightarrow> unit completion \<times> world" where
  "appendChild p c w =
     (case kind_of w p of
        None \<Rightarrow> (Abrupt HierarchyRequestError, w)
      | Some (Text s) \<Rightarrow> (Abrupt HierarchyRequestError, w)
      | Some pk \<Rightarrow>
          if c \<in> set (inclusive_ancestors (next_node w) w p) then (Abrupt HierarchyRequestError, w)
          else if kind_of w c = Some Fragment then (Normal (), move_children p c w)
          else (Normal (), insert_last p c (detach c w)))"

text \<open>
  \<^verbatim>\<open>setAttribute\<close>, \<^verbatim>\<open>getAttribute\<close> and \<^verbatim>\<open>removeAttribute\<close> on an element of an HTML
  document: the qualified name is taken in ASCII lower case; an existing attribute keeps
  its place, a new one is added last.
\<close>

definition set_attrs :: "nat \<Rightarrow> (string \<times> string) list \<Rightarrow> world \<Rightarrow> world" where
  "set_attrs n al w = w\<lparr>attrs_of := (attrs_of w)(n := al)\<rparr>"

definition setAttribute :: "nat \<Rightarrow> string \<Rightarrow> string \<Rightarrow> world \<Rightarrow> unit completion \<times> world" where
  "setAttribute n qualifiedName v w =
     (if valid_name qualifiedName
      then (Normal (), set_attrs n (AList.update (toLowerCase qualifiedName) v (attrs_of w n)) w)
      else (Abrupt InvalidCharacterError, w))"

definition getAttribute :: "world \<Rightarrow> nat \<Rightarrow> string \<Rightarrow> jsprim" where
  "getAttribute w n qualifiedName =
     (case map_of (attrs_of w n) (toLowerCase qualifiedName) of None \<Rightarrow> PNull | Some v \<Rightarrow> PStr v)"

definition removeAttribute :: "nat \<Rightarrow> string \<Rightarrow> world \<Rightarrow> world" where
  "removeAttribute n qualifiedName w =
     set_attrs n (AList.delete (toLowerCase qualifiedName) (attrs_of w n)) w"

text \<open>\<^verbatim>\<open>tagName\<close> of an element of an HTML document: the name in ASCII upper case.\<close>

definition tagName :: "string \<Rightarrow> string" where
  "tagName localName = toUpperCase localName"

text \<open>
  \<^verbatim>\<open>document.getElementById\<close>: the first element, in tree order, of the tree that holds
  the body, whose \<^verbatim>\<open>id\<close> attribute is the given non-empty string.
\<close>

fun preorder :: "nat \<Rightarrow> world \<Rightarrow> nat \<Rightarrow> nat list" where
  "preorder 0 w n = [n]"
| "preorder (Suc k) w n = n # concat (map (preorder k w) (children_of w n))"

definition document_root :: "world \<Rightarrow> nat" where
  "document_root w = last (inclusive_ancestors (next_node w) w (body w))"

definition getElementById :: "world \<Rightarrow> string \<Rightarrow> jsvalue" where
  "getElementById w s =
     (if s = [] then Null
      else case find (\<lambda>n. is_element_kind (kind_of w n) \<and> map_of (attrs_of w n) ''id'' = Some s)
                  (preorder (next_node w) w (document_root w)) of
             None \<Rightarrow> Null
           | Some n \<Rightarrow> NodeRef n)"

text \<open>
  The object store: a new empty object, and the replacement of an object's entries.
  The objects of the store are plain objects, whose prototype is \<^verbatim>\<open>Object.prototype\<close>.
\<close>

definition new_object :: "world \<Rightarrow> nat \<times> world" where
  "new_object w = (next_object w, w\<lparr>objects := (objects w)(next_object w := []),
                                      next_object := Suc (next_object w)\<rparr>)"

definition set_object :: "nat \<Rightarrow> (string \<times> jsprim) list \<Rightarrow> world \<Rightarrow> world" where
  "set_object r entries w = w\<lparr>objects := (objects w)(r := entries)\<rparr>"

text \<open>
  The assignment \<^verbatim>\<open>o[k] = v\<close> of a primitive value to a property of such an object.
  The key \<^verbatim>\<open>__proto__\<close> names the accessor of \<^verbatim>\<open>Object.prototype\<close>: its setter takes the
  value for a prototype, ignores a string, a boolean and \<^verbatim>\<open>undefined\<close>, and gives the
  object no own property. An existing own key keeps its place. A new key that is an
  array index (the decimal numeral, without leading zero, of a number below 2^32 - 1) is
  enumerated among the array indices in ascending order, before every other key. Any
  other new key is enumerated last.
\<close>

definition digit_value :: "char \<Rightarrow> int" where
  "digit_value c = (case map_of (zip ''0123456789'' [0, 1, 2, 3, 4, 5, 6, 7, 8, 9]) c of
                      None \<Rightarrow> 0 | Some d \<Rightarrow> d)"

definition numeric_value :: "string \<Rightarrow> int" where
  "numeric_value k = foldl (\<lambda>a c. 10 * a + digit_value c) 0 k"

definition is_array_index :: "string \<Rightarrow> bool" where
  "is_array_index k =
     (k \<noteq> [] \<and> list_all (\<lambda>c. c \<in> set ''0123456789'') k \<and> (hd k \<noteq> CHR ''0'' \<or> k = ''0'') \<and>
      numeric_value k < 4294967295)"

fun insert_index :: "string \<Rightarrow> jsprim \<Rightarrow> (string \<times> jsprim) list \<Rightarrow> (string \<times> jsprim) list" where
  "insert_index k v [] = [(k, v)]"
| "insert_index k v (p # ps) =
     (if is_array_index (fst p) \<and> numeric_value (fst p) < numeric_value k
      then p # insert_index k v ps
      else (k, v) # p # ps)"

definition object_put :: "string \<Rightarrow> jsprim \<Rightarrow> (string \<times> jsprim) list \<Rightarrow> (string \<times> jsprim) list" where
  "object_put k v ps =
     (if k = ''__proto__'' then ps
      else if map_of ps k = None \<and> is_array_index k then insert_index k v ps
      else AList.update k v ps)"

section \<open>Method calls on values\<close>

text \<open>
  A method call on a field looks the method up on whatever the field holds: on
  \<^verbatim>\<open>undefined\<close>, \<^verbatim>\<open>null\<close> or a value without that method the call raises TypeError.
\<close>

text \<open>\<^verbatim>\<open>t.setAttribute(key, value)\<close>: only elements have the method.\<close>

definition call_setAttribute :: "jsvalue \<Rightarrow> string \<Rightarrow> jsprim \<Rightarrow> world \<Rightarrow> unit completion \<times> world" where
  "call_setAttribute t key v w =
     (case t of
        NodeRef n \<Rightarrow> if is_element_kind (kind_of w n) then setAttribute n key (prim_to_string v) w
                     else (Abrupt TypeError, w)
      | _ \<Rightarrow> (Abrupt TypeError, w))"

text \<open>\<^verbatim>\<open>t.appendChild(v)\<close>: every node has the method; the argument must be a node.\<close>

definition call_appendChild :: "jsvalue \<Rightarrow> jsvalue \<Rightarrow> world \<Rightarrow> unit completion \<times> world" where
  "call_appendChild t v w =
     (case t of
        NodeRef p \<Rightarrow> (case v of NodeRef c \<Rightarrow> appendChild p c w | _ \<Rightarrow> (Abrupt TypeError, w))
      | _ \<Rightarrow> (Abrupt TypeError, w))"

definition arg_appendChild :: "handle_arg \<Rightarrow> jsvalue \<Rightarrow> world \<Rightarrow> unit completion \<times> world" where
  "arg_appendChild parent v w =
     (case parent of Value t \<Rightarrow> call_appendChild t v w | _ \<Rightarrow> (Abrupt TypeError, w))"

text \<open>
  \<^verbatim>\<open>parent.append(v)\<close> (\<^verbatim>\<open>ParentNode.append\<close> with one argument): elements and fragments
  have the method; an argument that is not a node is converted to a string and becomes
  a new text node, which is then appended.
\<close>

definition arg_append :: "handle_arg \<Rightarrow> jsvalue \<Rightarrow> world \<Rightarrow> unit completion \<times> world" where
  "arg_append parent v w =
     (case parent of
        Value (NodeRef p) \<Rightarrow>
          (case kind_of w p of
             None \<Rightarrow> (Abrupt TypeError, w)
           | Some (Text s) \<Rightarrow> (Abrupt TypeError, w)
           | Some k \<Rightarrow>
               (case v of
                  NodeRef c \<Rightarrow> appendChild p c w
                | _ \<Rightarrow> (case createTextNode (to_string v) w of (m, w1) \<Rightarrow> appendChild p m w1)))
      | _ \<Rightarrow> (Abrupt TypeError, w))"

text \<open>\<^verbatim>\<open>t.parentNode\<close>: a property read, \<^verbatim>\<open>undefined\<close> on a value that is not a node.\<close>

definition read_parentNode :: "world \<Rightarrow> jsvalue \<Rightarrow> jsvalue completion" where
  "read_parentNode w t =
     (case t of
        NodeRef n \<Rightarrow> Normal (parentNode w n)
      | Undefined \<Rightarrow> Abrupt TypeError
      | Null \<Rightarrow> Abrupt TypeError
      | _ \<Rightarrow> Normal Undefined)"

text \<open>\<^verbatim>\<open>p.children\<close> followed by the read of its \<^verbatim>\<open>length\<close>.\<close>

definition read_children :: "world \<Rightarrow> handle_arg \<Rightarrow> nat list completion" where
  "read_children w p =
     (case p of
        Value (NodeRef n) \<Rightarrow>
          (case kind_of w n of
             None \<Rightarrow> Abrupt TypeError
           | Some (Text s) \<Rightarrow> Abrupt TypeError
           | Some k \<Rightarrow> Normal (element_children w n))
      | _ \<Rightarrow> Abrupt TypeError)"

section \<open>Arrays\<close>

text \<open>
  An array is a list of slots; \<open>None\<close> is a hole, which reads as \<^verbatim>\<open>undefined\<close>. Assigning
  past the end extends the array with holes.
\<close>

definition array_set :: "nat \<Rightarrow> 'a \<Rightarrow> 'a option list \<Rightarrow> 'a option list" where
  "array_set i v xs =
     (if i < length xs then xs[i := Some v]
      else xs @ replicate (i - length xs) None @ [Some v])"

text \<open>\<^verbatim>\<open>xs.splice(start, 0, x)\<close>: the start index is clamped as the language does.\<close>

definition splice_insert :: "int \<Rightarrow> 'a \<Rightarrow> 'a list \<Rightarrow> 'a list" where
  "splice_insert start x xs =
     (let len = int (length xs);
          k = (if start < 0 then max (len + start) 0 else min start len)
      in take (nat k) xs @ [x] @ drop (nat k) xs)"

datatype position = First | Last | Index int

section \<open>The early class Tag (DOMKit.js, the class that follows TagLegacy)\<close>

text \<open>
  The class \<^verbatim>\<open>Tag\<close> declared in the same file as \<^verbatim>\<open>TagLegacy\<close> has the constructor
  \<^verbatim>\<open>constructor(id, debug)\<close>: a string is taken as the id of an existing element, anything
  else gives a new \<^verbatim>\<open>div\<close>. It is the class that \<^verbatim>\<open>new Tag(...)\<close> inside \<^verbatim>\<open>TagLegacy\<close> names.
  It declares the fields \<^verbatim>\<open>debug\<close>, \<^verbatim>\<open>element\<close> and \<^verbatim>\<open>stored\<close> and no property \<^verbatim>\<open>tag\<close>.
\<close>

record EarlyTag =
  e_debug :: jsvalue
  e_element :: jsvalue

definition EarlyTag_constructor :: "jsvalue \<Rightarrow> jsvalue \<Rightarrow> world \<Rightarrow> EarlyTag completion \<times> world" where
  "EarlyTag_constructor ident debug w =
     (let d = (if truthy debug then debug else Bool False) in
      case ident of
        Str s \<Rightarrow> (Normal \<lparr>e_debug = d, e_element = getElementById w s\<rparr>, w)
      | _ \<Rightarrow> (case createElement ''div'' w of
                 (Normal n, w1) \<Rightarrow> (Normal \<lparr>e_debug = d, e_element = NodeRef n\<rparr>, w1)
               | (Abrupt e, w1) \<Rightarrow> (Abrupt e, w1)))"

text \<open>Reading the property \<^verbatim>\<open>tag\<close> of such an object: it has none.\<close>

definition EarlyTag_tag :: "EarlyTag \<Rightarrow> jsvalue" where
  "EarlyTag_tag t = Undefined"

section \<open>The class TagLegacy\<close>

text \<open>
  The fields \<^verbatim>\<open>_type\<close>, \<^verbatim>\<open>_attributes\<close>, \<^verbatim>\<open>_parent\<close>, \<^verbatim>\<open>_children\<close>, \<^verbatim>\<open>_tag\<close> and \<^verbatim>\<open>_relatives\<close>.
  The attribute mapping is held by reference (\<open>None\<close> is \<^verbatim>\<open>undefined\<close>), since the setter
  compares references.
\<close>

record TagLegacy =
  f_type :: string
  f_attributes :: "nat option"
  f_parent :: handle_arg
  f_children :: "jsvalue list option"
  f_tag :: jsvalue
  f_relatives :: "jsvalue option list option"

text \<open>The loop over \<^verbatim>\<open>Object.entries\<close> that sets each attribute on \<^verbatim>\<open>this._tag\<close>.\<close>

fun setAttribute_loop :: "jsvalue \<Rightarrow> (string \<times> jsprim) list \<Rightarrow> world \<Rightarrow> unit completion \<times> world" where
  "setAttribute_loop t [] w = (Normal (), w)"
| "setAttribute_loop t ((key, v) # rest) w =
     (case call_setAttribute t key v w of
        (Normal u, w1) \<Rightarrow> setAttribute_loop t rest w1
      | (Abrupt e, w1) \<Rightarrow> (Abrupt e, w1))"

text \<open>\<^verbatim>\<open>children.forEach\<close>: a string becomes a new text node, anything else is appended as it is.\<close>

fun appendChildren :: "jsvalue \<Rightarrow> jsvalue list \<Rightarrow> world \<Rightarrow> unit completion \<times> world" where
  "appendChildren t [] w = (Normal (), w)"
| "appendChildren t (element # rest) w =
     (case (case element of
              Str s \<Rightarrow> (case createTextNode s w of (m, w1) \<Rightarrow> call_appendChild t (NodeRef m) w1)
            | _ \<Rightarrow> call_appendChild t element w) of
        (Normal u, w2) \<Rightarrow> appendChildren t rest w2
      | (Abrupt e, w2) \<Rightarrow> (Abrupt e, w2))"

definition TagLegacy_constructor ::
  "string \<Rightarrow> nat option \<Rightarrow> handle_arg \<Rightarrow> jsvalue list option \<Rightarrow> world \<Rightarrow> unit completion \<times> TagLegacy \<times> world" where
  "TagLegacy_constructor type attributes parent children w =
     (let h0 = \<lparr>f_type = type, f_attributes = attributes, f_parent = parent, f_children = children,
                f_tag = Undefined, f_relatives = None\<rparr> in
      case createElement (f_type h0) w of
        (Abrupt e, w1) \<Rightarrow> (Abrupt e, h0, w1)
      | (Normal n, w1) \<Rightarrow>
          (let h1 = h0\<lparr>f_tag := NodeRef n\<rparr> in
           (case (case f_attributes h1 of
                    None \<Rightarrow> (Normal (), w1)
                  | Some r \<Rightarrow> setAttribute_loop (f_tag h1) (objects w1 r) w1) of
              (Abrupt e, w2) \<Rightarrow> (Abrupt e, h1, w2)
            | (Normal u, w2) \<Rightarrow>
                (let h2 = (if \<not> arg_truthy (f_parent h1)
                           then h1\<lparr>f_parent := Value (NodeRef (body w2))\<rparr> else h1) in
                 (case arg_appendChild (f_parent h2) (f_tag h2) w2 of
                    (Abrupt e, w3) \<Rightarrow> (Abrupt e, h2, w3)
                  | (Normal u, w3) \<Rightarrow>
                      (case f_children h2 of
                         None \<Rightarrow> (Normal (), h2, w3)
                       | Some cs \<Rightarrow>
                           (case appendChildren (f_tag h2) cs w3 of (c, w4) \<Rightarrow> (c, h2, w4))))))))"

definition TagLegacy_set_attributes :: "nat \<Rightarrow> TagLegacy \<Rightarrow> world \<Rightarrow> unit completion \<times> TagLegacy \<times> world" where
  "TagLegacy_set_attributes attributes h w =
     (let attributesOld = f_attributes h;
          h1 = h\<lparr>f_attributes := Some attributes\<rparr> in
      if f_attributes h1 \<noteq> attributesOld
      then (case setAttribute_loop (f_tag h1) (objects w attributes) w of (c, w1) \<Rightarrow> (c, h1, w1))
      else (Normal (), h1, w))"

definition TagLegacy_set_parent :: "handle_arg \<Rightarrow> TagLegacy \<Rightarrow> world \<Rightarrow> unit completion \<times> TagLegacy \<times> world" where
  "TagLegacy_set_parent parent h w =
     (let parentOld = f_parent h;
          h1 = h\<lparr>f_parent := parent\<rparr> in
      if f_parent h1 \<noteq> parentOld
      then (case arg_append parent (f_tag h1) w of (c, w1) \<Rightarrow> (c, h1, w1))
      else (Normal (), h1, w))"

definition TagLegacy_set_tag :: "jsvalue \<Rightarrow> TagLegacy \<Rightarrow> TagLegacy" where
  "TagLegacy_set_tag tag h = h\<lparr>f_tag := tag\<rparr>"

definition TagLegacy_get_tag :: "TagLegacy \<Rightarrow> jsvalue" where
  "TagLegacy_get_tag h = f_tag h"

definition TagLegacy_get_type :: "TagLegacy \<Rightarrow> world \<Rightarrow> string completion \<times> TagLegacy \<times> world" where
  "TagLegacy_get_type h w =
     (case TagLegacy_get_tag h of
        NodeRef n \<Rightarrow>
          (case kind_of w n of
             Some (Element localName) \<Rightarrow>
               (let h1 = h\<lparr>f_type := toLowerCase (tagName localName)\<rparr> in (Normal (f_type h1), h1, w))
           | _ \<Rightarrow> (Abrupt TypeError, h, w))
      | _ \<Rightarrow> (Abrupt TypeError, h, w))"

text \<open>
  The attributes getter fills a new object from the node's attribute collection, keeps
  it in \<^verbatim>\<open>_attributes\<close> and returns it.
\<close>

fun attributes_loop :: "world \<Rightarrow> nat \<Rightarrow> (string \<times> string) list \<Rightarrow> (string \<times> jsprim) list \<Rightarrow> (string \<times> jsprim) list" where
  "attributes_loop w n [] newAttributes = newAttributes"
| "attributes_loop w n ((nodeName, v) # rest) newAttributes =
     attributes_loop w n rest (object_put nodeName (getAttribute w n nodeName) newAttributes)"

definition TagLegacy_get_attributes :: "TagLegacy \<Rightarrow> world \<Rightarrow> nat completion \<times> TagLegacy \<times> world" where
  "TagLegacy_get_attributes h w =
     (case new_object w of
        (newAttributes, w1) \<Rightarrow>
          (case TagLegacy_get_tag h of
             NodeRef n \<Rightarrow>
               (case kind_of w1 n of
                  Some (Element localName) \<Rightarrow>
                    (let w2 = set_object newAttributes (attributes_loop w1 n (attrs_of w1 n) []) w1;
                         h1 = h\<lparr>f_attributes := Some newAttributes\<rparr>
                     in (Normal newAttributes, h1, w2))
                | _ \<Rightarrow> (Abrupt TypeError, h, w1))
           | _ \<Rightarrow> (Abrupt TypeError, h, w1)))"

definition TagLegacy_get_parent :: "TagLegacy \<Rightarrow> world \<Rightarrow> handle_arg completion \<times> TagLegacy \<times> world" where
  "TagLegacy_get_parent h w =
     (case read_parentNode w (TagLegacy_get_tag h) of
        Abrupt e \<Rightarrow> (Abrupt e, h, w)
      | Normal p \<Rightarrow>
          (let h1 = h\<lparr>f_parent := Value p\<rparr> in
           if \<not> arg_truthy (f_parent h1)
           then (case TagLegacy_set_parent (Value (NodeRef (body w))) h1 w of
                   (Abrupt e, h2, w2) \<Rightarrow> (Abrupt e, h2, w2)
                 | (Normal u, h2, w2) \<Rightarrow> (Normal (f_parent h2), h2, w2))
           else (Normal (f_parent h1), h1, w)))"

definition TagLegacy_get_children :: "TagLegacy \<Rightarrow> world \<Rightarrow> jsvalue list completion \<times> TagLegacy \<times> world" where
  "TagLegacy_get_children h w =
     (case TagLegacy_get_tag h of
        NodeRef n \<Rightarrow>
          (let childrenArray = map NodeRef (children_of w n);
               h1 = h\<lparr>f_children := Some childrenArray\<rparr>
           in (Normal childrenArray, h1, w))
      | _ \<Rightarrow> (Abrupt TypeError, h, w))"

text \<open>
  The relatives getter copies the parent's element children into a new array, each at
  its own index, and skips the node itself: the slot of the node stays a hole unless the
  node is the last element child.
\<close>

fun relatives_loop :: "jsvalue \<Rightarrow> nat list \<Rightarrow> nat \<Rightarrow> jsvalue option list \<Rightarrow> jsvalue option list" where
  "relatives_loop t [] i relativeArray = relativeArray"
| "relatives_loop t (r # rest) i relativeArray =
     relatives_loop t rest (Suc i)
       (if NodeRef r \<noteq> t then array_set i (NodeRef r) relativeArray else relativeArray)"

definition TagLegacy_get_relatives :: "TagLegacy \<Rightarrow> world \<Rightarrow> jsvalue option list completion \<times> TagLegacy \<times> world" where
  "TagLegacy_get_relatives h w =
     (case TagLegacy_get_parent h w of
        (Abrupt e, h1, w1) \<Rightarrow> (Abrupt e, h1, w1)
      | (Normal p, h1, w1) \<Rightarrow>
          (case read_children w1 p of
             Abrupt e \<Rightarrow> (Abrupt e, h1, w1)
           | Normal relatives \<Rightarrow>
               (let relativeArray = relatives_loop (TagLegacy_get_tag h1) relatives 0 [];
                    h2 = h1\<lparr>f_relatives := Some relativeArray\<rparr>
                in (Normal relativeArray, h2, w1))))"

text \<open>
  The loop of \<^verbatim>\<open>toPosition\<close> that moves every item of the list into the fragment. The
  iteration of \<^verbatim>\<open>for ... of\<close> visits a hole as \<^verbatim>\<open>undefined\<close>, which \<^verbatim>\<open>appendChild\<close> refuses.
\<close>

fun fragment_loop :: "nat \<Rightarrow> jsvalue option list \<Rightarrow> world \<Rightarrow> unit completion \<times> world" where
  "fragment_loop fragment [] w = (Normal (), w)"
| "fragment_loop fragment (item # rest) w =
     (case call_appendChild (NodeRef fragment) (case item of None \<Rightarrow> Undefined | Some v \<Rightarrow> v) w of
        (Normal u, w1) \<Rightarrow> fragment_loop fragment rest w1
      | (Abrupt e, w1) \<Rightarrow> (Abrupt e, w1))"

definition TagLegacy_toPosition :: "position \<Rightarrow> TagLegacy \<Rightarrow> world \<Rightarrow> unit completion \<times> TagLegacy \<times> world" where
  "TagLegacy_toPosition position h w =
     (case createDocumentFragment w of
        (fragment, w1) \<Rightarrow>
          (case TagLegacy_get_relatives h w1 of
             (Abrupt e, h2, w2) \<Rightarrow> (Abrupt e, h2, w2)
           | (Normal relatives, h2, w2) \<Rightarrow>
               (let relativeList =
                      (case position of
                         First \<Rightarrow> splice_insert 0 (Some (TagLegacy_get_tag h2)) relatives
                       | Last \<Rightarrow> relatives @ [Some (TagLegacy_get_tag h2)]
                       | Index k \<Rightarrow> splice_insert k (Some (TagLegacy_get_tag h2)) relatives);
                    h3 = h2\<lparr>f_relatives := Some relativeList\<rparr>
                in case fragment_loop fragment relativeList w2 of
                     (Abrupt e, w3) \<Rightarrow> (Abrupt e, h3, w3)
                   | (Normal u, w3) \<Rightarrow>
                       (case arg_appendChild (f_parent h3) (NodeRef fragment) w3 of
                          (c, w4) \<Rightarrow> (c, h3, w4)))))"

text \<open>\<^verbatim>\<open>remove\<close>: elements and text nodes have the platform method \<^verbatim>\<open>remove\<close>, fragments have not.\<close>

definition TagLegacy_remove :: "TagLegacy \<Rightarrow> world \<Rightarrow> unit completion \<times> TagLegacy \<times> world" where
  "TagLegacy_remove h w =
     (case f_tag h of
        NodeRef n \<Rightarrow>
          (case kind_of w n of
             None \<Rightarrow> (Abrupt TypeError, h, w)
           | Some Fragment \<Rightarrow> (Abrupt TypeError, h, w)
           | Some k \<Rightarrow> (Normal (), h\<lparr>f_tag := Null\<rparr>, detach n w))
      | _ \<Rightarrow> (Abrupt TypeError, h, w))"

definition TagLegacy_reference :: "jsvalue \<Rightarrow> TagLegacy \<Rightarrow> world \<Rightarrow> unit completion \<times> TagLegacy \<times> world" where
  "TagLegacy_reference tag h w =
     (case TagLegacy_remove h w of
        (Abrupt e, h1, w1) \<Rightarrow> (Abrupt e, h1, w1)
      | (Normal u, h1, w1) \<Rightarrow> (Normal (), TagLegacy_set_tag tag h1, w1))"

text \<open>
  The type setter. Its \<^verbatim>\<open>new Tag(...)\<close> reaches the early class \<^verbatim>\<open>Tag\<close>, whose constructor
  takes the type as an element id and the attribute object as the debug flag, and whose
  objects have no property \<^verbatim>\<open>tag\<close>.
\<close>

definition TagLegacy_set_type :: "string \<Rightarrow> TagLegacy \<Rightarrow> world \<Rightarrow> unit completion \<times> TagLegacy \<times> world" where
  "TagLegacy_set_type type h w =
     (let typeOld = f_type h;
          h1 = h\<lparr>f_type := type\<rparr> in
      if f_type h1 \<noteq> typeOld
      then (case TagLegacy_get_attributes h1 w of
              (Abrupt e, h2, w2) \<Rightarrow> (Abrupt e, h2, w2)
            | (Normal a, h2, w2) \<Rightarrow>
                (case TagLegacy_get_parent h2 w2 of
                   (Abrupt e, h3, w3) \<Rightarrow> (Abrupt e, h3, w3)
                 | (Normal p, h3, w3) \<Rightarrow>
                     (case TagLegacy_get_children h3 w3 of
                        (Abrupt e, h4, w4) \<Rightarrow> (Abrupt e, h4, w4)
                      | (Normal cs, h4, w4) \<Rightarrow>
                          (case EarlyTag_constructor (Str (f_type h4)) (ObjRef a) w4 of
                             (Abrupt e, w5) \<Rightarrow> (Abrupt e, h4, w5)
                           | (Normal newTag, w5) \<Rightarrow>
                               (case TagLegacy_remove h4 w5 of
                                  (Abrupt e, h6, w6) \<Rightarrow> (Abrupt e, h6, w6)
                                | (Normal u, h6, w6) \<Rightarrow>
                                    (Normal (), TagLegacy_set_tag (EarlyTag_tag newTag) h6, w6))))))
      else (Normal (), h1, w))"

section \<open>The current class Tag\<close>

text \<open>
  The fields \<^verbatim>\<open>debug\<close> and \<^verbatim>\<open>element\<close>, and of \<^verbatim>\<open>stored\<close> the properties \<^verbatim>\<open>name\<close>, \<^verbatim>\<open>parent\<close>
  and \<^verbatim>\<open>attributes\<close> (\<open>None\<close>: not set). A handle stored in \<^verbatim>\<open>stored.parent\<close> is kept as its
  element; no method reads that property.
\<close>

record Tag =
  t_debug :: jsvalue
  t_element :: jsvalue
  stored_name :: "string option"
  stored_parent :: "jsvalue option"
  stored_attributes :: "jsvalue option"

text \<open>
  The constructor's second test is \<^verbatim>\<open>typeof id === 'string'\<close>. The parameter is named
  \<^verbatim>\<open>element\<close>, and no declaration of \<^verbatim>\<open>id\<close> exists in the class or the file: \<^verbatim>\<open>typeof\<close> of
  an identifier that resolves to nothing is \<^verbatim>\<open>'undefined'\<close>.
\<close>

definition typeof_id :: string where
  "typeof_id = ''undefined''"

definition Tag_constructor :: "jsvalue \<Rightarrow> jsvalue \<Rightarrow> world \<Rightarrow> Tag completion \<times> world" where
  "Tag_constructor element debug w =
     (let this = \<lparr>t_debug = (if truthy debug then debug else Bool False), t_element = Undefined,
                  stored_name = None, stored_parent = None, stored_attributes = None\<rparr> in
      if is_HTMLElement w element then (Normal (this\<lparr>t_element := element\<rparr>), w)
      else if typeof_id = ''string''
      then (case getElementById w (to_string element) of
              NodeRef n \<Rightarrow> (Normal (this\<lparr>t_element := NodeRef n\<rparr>), w)
            | _ \<Rightarrow> (case createElement ''div'' w of
                       (Normal n, w1) \<Rightarrow> (Normal (this\<lparr>t_element := NodeRef n\<rparr>), w1)
                     | (Abrupt e, w1) \<Rightarrow> (Abrupt e, w1)))
      else (case createElement ''div'' w of
              (Normal n, w1) \<Rightarrow> (Normal (this\<lparr>t_element := NodeRef n\<rparr>), w1)
            | (Abrupt e, w1) \<Rightarrow> (Abrupt e, w1)))"

text \<open>\<^verbatim>\<open>fix\<close>: a missing element is replaced by a new one named \<^verbatim>\<open>this.stored.name || 'div'\<close>.\<close>

definition Tag_fix :: "Tag \<Rightarrow> world \<Rightarrow> unit completion \<times> Tag \<times> world" where
  "Tag_fix h w =
     (if \<not> truthy (t_element h)
      then (case createElement (case stored_name h of
                                  None \<Rightarrow> ''div''
                                | Some s \<Rightarrow> if s \<noteq> [] then s else ''div'') w of
              (Normal n, w1) \<Rightarrow> (Normal (), h\<lparr>t_element := NodeRef n\<rparr>, w1)
            | (Abrupt e, w1) \<Rightarrow> (Abrupt e, h, w1))
      else (Normal (), h, w))"

text \<open>The parent getter wraps \<^verbatim>\<open>this.element.parentElement\<close> in a new handle.\<close>

definition Tag_get_parent :: "Tag \<Rightarrow> world \<Rightarrow> Tag completion \<times> world" where
  "Tag_get_parent h w =
     (case t_element h of
        NodeRef n \<Rightarrow> Tag_constructor (parentElement w n) Undefined w
      | Undefined \<Rightarrow> (Abrupt TypeError, w)
      | Null \<Rightarrow> (Abrupt TypeError, w)
      | _ \<Rightarrow> Tag_constructor Undefined Undefined w)"

text \<open>
  The parent setter. \<^verbatim>\<open>parent instanceof Tag\<close> holds for the handle itself and for other
  handles of the class; \<^verbatim>\<open>parent.element\<close> of the handle itself is its element after
  \<^verbatim>\<open>fix\<close>. In the third branch the getter returns a handle, which has no method
  \<^verbatim>\<open>removeChild\<close>, so the call raises TypeError.
\<close>

fun is_Tag :: "handle_arg \<Rightarrow> bool" where
  "is_Tag This = True"
| "is_Tag (OtherTag i e) = True"
| "is_Tag a = False"

fun element_of_arg :: "Tag \<Rightarrow> handle_arg \<Rightarrow> jsvalue" where
  "element_of_arg h This = t_element h"
| "element_of_arg h (OtherTag i e) = e"
| "element_of_arg h a = Undefined"

fun arg_is_HTMLElement :: "world \<Rightarrow> handle_arg \<Rightarrow> bool" where
  "arg_is_HTMLElement w (Value v) = is_HTMLElement w v"
| "arg_is_HTMLElement w a = False"

fun value_of_arg :: "handle_arg \<Rightarrow> jsvalue" where
  "value_of_arg (Value v) = v"
| "value_of_arg a = Undefined"

definition Tag_set_parent :: "handle_arg \<Rightarrow> Tag \<Rightarrow> world \<Rightarrow> unit completion \<times> Tag \<times> world" where
  "Tag_set_parent parent h0 w0 =
     (case Tag_fix h0 w0 of
        (Abrupt e, h, w) \<Rightarrow> (Abrupt e, h, w)
      | (Normal u, h, w) \<Rightarrow>
          if is_Tag parent \<and> element_of_arg h parent \<noteq> t_element h
          then (case call_appendChild (element_of_arg h parent) (t_element h) w of
                  (Abrupt e, w1) \<Rightarrow> (Abrupt e, h, w1)
                | (Normal u, w1) \<Rightarrow> (Normal (), h\<lparr>stored_parent := Some (element_of_arg h parent)\<rparr>, w1))
          else if arg_is_HTMLElement w parent \<and> parent \<noteq> Value (t_element h)
          then (case arg_appendChild parent (t_element h) w of
                  (Abrupt e, w1) \<Rightarrow> (Abrupt e, h, w1)
                | (Normal u, w1) \<Rightarrow>
                    (case Tag_constructor (value_of_arg parent) Undefined w1 of
                       (Abrupt e, w2) \<Rightarrow> (Abrupt e, h, w2)
                     | (Normal p, w2) \<Rightarrow> (Normal (), h\<lparr>stored_parent := Some (t_element p)\<rparr>, w2)))
          else if \<not> arg_truthy parent
          then (case Tag_get_parent h w of
                  (Abrupt e, w1) \<Rightarrow> (Abrupt e, h, w1)
                | (Normal p, w1) \<Rightarrow> (Abrupt TypeError, h, w1))
          else (Normal (), h, w))"

text \<open>
  The attributes getter. Its loop \<^verbatim>\<open>for(item of this.element.attributes)\<close> assigns to
  \<^verbatim>\<open>item\<close>, which nothing declares; a class body is strict code, where such an assignment
  raises ReferenceError. The assignment happens once per attribute, so the getter returns
  (an empty object) only for an element without attributes.
\<close>

definition Tag_get_attributes :: "Tag \<Rightarrow> world \<Rightarrow> (string \<times> jsprim) list completion" where
  "Tag_get_attributes h w =
     (case t_element h of
        NodeRef n \<Rightarrow>
          (case kind_of w n of
             Some (Element localName) \<Rightarrow>
               (case attrs_of w n of [] \<Rightarrow> Normal [] | item # rest \<Rightarrow> Abrupt ReferenceError)
           | _ \<Rightarrow> Abrupt TypeError)
      | _ \<Rightarrow> Abrupt TypeError)"

text \<open>
  The attributes setter. \<^verbatim>\<open>attributes[key]\<close> finds an own property of the mapping or a
  property inherited from \<^verbatim>\<open>Object.prototype\<close> (always truthy).
\<close>

text \<open>
  The test \<^verbatim>\<open>typeof attributes === 'object' && attributes\<close> admits the objects: a mapping
  of the object store, with its entries, or a node, which has no own enumerable property.
\<close>

fun own_entries :: "world \<Rightarrow> jsvalue \<Rightarrow> (string \<times> jsprim) list option" where
  "own_entries w (ObjRef r) = Some (objects w r)"
| "own_entries w (NodeRef n) = Some []"
| "own_entries w v = None"

definition object_prototype_names :: "string list" where
  "object_prototype_names =
     [''constructor'', ''__proto__'', ''hasOwnProperty'', ''isPrototypeOf'', ''propertyIsEnumerable'',
      ''toLocaleString'', ''toString'', ''valueOf'', ''__defineGetter__'', ''__defineSetter__'',
      ''__lookupGetter__'', ''__lookupSetter__'']"

definition property_truthy :: "(string \<times> jsprim) list \<Rightarrow> string \<Rightarrow> bool" where
  "property_truthy entries key =
     (case map_of entries key of
        Some v \<Rightarrow> prim_truthy v
      | None \<Rightarrow> key \<in> set object_prototype_names)"

fun removeAttribute_loop :: "nat \<Rightarrow> (string \<times> jsprim) list \<Rightarrow> (string \<times> jsprim) list \<Rightarrow> world \<Rightarrow> world" where
  "removeAttribute_loop n attributes [] w = w"
| "removeAttribute_loop n attributes ((key, v) # rest) w =
     removeAttribute_loop n attributes rest
       (if \<not> property_truthy attributes key then removeAttribute n key w else w)"

definition Tag_set_attributes :: "jsvalue \<Rightarrow> Tag \<Rightarrow> world \<Rightarrow> unit completion \<times> Tag \<times> world" where
  "Tag_set_attributes attributes h0 w0 =
     (case Tag_fix h0 w0 of
        (Abrupt e, h, w) \<Rightarrow> (Abrupt e, h, w)
      | (Normal u, h, w) \<Rightarrow>
          (case own_entries w attributes of
             Some entries \<Rightarrow>
               (case Tag_get_attributes h w of
                  Abrupt e \<Rightarrow> (Abrupt e, h, w)
                | Normal current \<Rightarrow>
                    (case t_element h of
                       NodeRef n \<Rightarrow>
                         (case setAttribute_loop (t_element h) entries
                                 (removeAttribute_loop n entries current w) of
                            (Abrupt e, w1) \<Rightarrow> (Abrupt e, h, w1)
                          | (Normal u, w1) \<Rightarrow> (Normal (), h\<lparr>stored_attributes := Some attributes\<rparr>, w1))
                     | _ \<Rightarrow> (Abrupt TypeError, h, w)))
           | None \<Rightarrow> (Normal (), h, w)))"

section \<open>Notions used in the statements\<close>

text \<open>
  An entry of an attribute mapping as the platform stores it: the key in ASCII lower
  case, the value converted to a string. \<open>written entries al\<close> is the attribute list
  \<open>al\<close> after \<^verbatim>\<open>setAttribute\<close> for every entry, in order.
\<close>

definition lowered :: "string \<times> jsprim \<Rightarrow> string \<times> string" where
  "lowered e = (toLowerCase (fst e), prim_to_string (snd e))"

definition written :: "(string \<times> jsprim) list \<Rightarrow> (string \<times> string) list \<Rightarrow> (string \<times> string) list" where
  "written entries al = fold (\<lambda>e. AList.update (fst (lowered e)) (snd (lowered e))) entries al"

text \<open>
  The attribute list of an element as the platform keeps it: no name twice, every name
  in lower case. The keys of a mapping that \<^verbatim>\<open>setAttribute\<close> accepts.
\<close>

definition attrs_wf :: "(string \<times> string) list \<Rightarrow> bool" where
  "attrs_wf al = (distinct (map fst al) \<and> list_all (\<lambda>k. toLowerCase k = k) (map fst al))"

definition names_valid :: "(string \<times> jsprim) list \<Rightarrow> bool" where
  "names_valid entries = list_all (\<lambda>e. valid_name (fst e)) entries"

definition truthy_entries :: "(string \<times> jsprim) list \<Rightarrow> (string \<times> jsprim) list" where
  "truthy_entries entries = filter (\<lambda>e. prim_truthy (snd e)) entries"

text \<open>The later world has every node of the earlier one, with its kind.\<close>

definition kinds_kept :: "world \<Rightarrow> world \<Rightarrow> bool" where
  "kinds_kept w w' = (next_node w \<le> next_node w' \<and> (\<forall>m<next_node w. kind_of w' m = kind_of w m))"

text \<open>
  The notions of the constructor's contract. \<open>mapping_entries\<close>: the entries of the optional
  attribute mapping. \<open>parent_target\<close>: the node the new element goes under, the body for a
  falsy parent argument. \<open>is_container\<close>: the kinds the platform lets have children.
\<close>

definition mapping_entries :: "world \<Rightarrow> nat option \<Rightarrow> (string \<times> jsprim) list" where
  "mapping_entries w attributes = (case attributes of None \<Rightarrow> [] | Some r \<Rightarrow> objects w r)"

definition parent_target :: "world \<Rightarrow> handle_arg \<Rightarrow> nat option" where
  "parent_target w parent =
     (if \<not> arg_truthy parent then Some (body w)
      else case parent of Value (NodeRef p) \<Rightarrow> Some p | _ \<Rightarrow> None)"

fun is_container :: "node_kind option \<Rightarrow> bool" where
  "is_container (Some (Element t)) = True"
| "is_container (Some Fragment) = True"
| "is_container k = False"

text \<open>
  \<open>chain_is w p A\<close>: \<open>A\<close> is \<open>p\<close> followed by all its ancestors, up to a node without parent.
  \<open>ancestors_ok\<close>: the parent links above a node end at a root, and pass only through
  nodes that exist (true of every node of a tree).
\<close>

fun chain_is :: "world \<Rightarrow> nat \<Rightarrow> nat list \<Rightarrow> bool" where
  "chain_is w p [] = False"
| "chain_is w p [a] = (a = p \<and> parent_of w p = None)"
| "chain_is w p (a # b # bs) = (a = p \<and> parent_of w p = Some b \<and> chain_is w b (b # bs))"

definition ancestors_ok :: "world \<Rightarrow> nat \<Rightarrow> bool" where
  "ancestors_ok w p =
     (chain_is w p (inclusive_ancestors (next_node w) w p) \<and>
      list_all (\<lambda>a. a < next_node w) (inclusive_ancestors (next_node w) w p))"

text \<open>
  A child the constructor accepts: a string, or a reference to an existing element or
  text node that is not among the given nodes \<open>A\<close> (the parent and its ancestors). The
  references of a child list, in order. \<open>children_ok\<close>: every child is accepted and no
  node is referred to twice.
\<close>

fun child_ok :: "world \<Rightarrow> nat list \<Rightarrow> jsvalue \<Rightarrow> bool" where
  "child_ok w A (Str s) = True"
| "child_ok w A (NodeRef c) =
     (c < next_node w \<and> kind_of w c \<noteq> None \<and> kind_of w c \<noteq> Some Fragment \<and> c \<notin> set A)"
| "child_ok w A v = False"

fun node_refs :: "jsvalue list \<Rightarrow> nat list" where
  "node_refs [] = []"
| "node_refs (NodeRef c # vs) = c # node_refs vs"
| "node_refs (v # vs) = node_refs vs"

definition children_ok :: "world \<Rightarrow> nat \<Rightarrow> jsvalue list \<Rightarrow> bool" where
  "children_ok w p cs =
     (list_all (child_ok w (inclusive_ancestors (next_node w) w p)) cs \<and> distinct (node_refs cs))"

text \<open>
  The child list the constructor is to produce: a string child is the next new node
  (numbered from \<open>k\<close> on), a reference child is the node referred to. The kind each child
  is to have: a text node with the string, or the kind of the node referred to.
\<close>

fun expected_children :: "nat \<Rightarrow> jsvalue list \<Rightarrow> nat list" where
  "expected_children k [] = []"
| "expected_children k (Str s # vs) = k # expected_children (Suc k) vs"
| "expected_children k (NodeRef c # vs) = c # expected_children k vs"
| "expected_children k (v # vs) = expected_children k vs"

fun expected_kind :: "world \<Rightarrow> jsvalue \<Rightarrow> node_kind option" where
  "expected_kind w (Str s) = Some (Text s)"
| "expected_kind w (NodeRef c) = kind_of w c"
| "expected_kind w v = None"

text \<open>
  What holds of the document while the constructor appends the children to the new
  node \<open>n\<close> under \<open>p\<close>, whose ancestor chain is \<open>A\<close>; and what holds of the children still to
  be appended.
\<close>

definition build_inv :: "nat \<Rightarrow> nat \<Rightarrow> nat list \<Rightarrow> world \<Rightarrow> bool" where
  "build_inv n p A w =
     (is_element_kind (kind_of w n) \<and> parent_of w n = Some p \<and> chain_is w p A \<and>
      length A \<le> next_node w \<and> (\<forall>a \<in> set A. a < n) \<and> n < next_node w \<and>
      children_of w p \<noteq> [] \<and> last (children_of w p) = n \<and>
      (\<forall>m \<in> set (children_of w n). m < next_node w \<and> m \<noteq> n \<and> parent_of w m = Some n))"

fun old_child :: "nat \<Rightarrow> nat list \<Rightarrow> world \<Rightarrow> jsvalue \<Rightarrow> bool" where
  "old_child n A w (Str s) = True"
| "old_child n A w (NodeRef c) =
     (c < n \<and> kind_of w c \<noteq> None \<and> kind_of w c \<noteq> Some Fragment \<and> c \<notin> set A)"
| "old_child n A w v = False"

definition rest_ok :: "nat \<Rightarrow> nat list \<Rightarrow> world \<Rightarrow> jsvalue list \<Rightarrow> bool" where
  "rest_ok n A w cs =
     (list_all (old_child n A w) cs \<and> distinct (node_refs cs) \<and>
      set (node_refs cs) \<inter> set (children_of w n) = {})"

section \<open>Example documents\<close>

text \<open>The value of a normal completion, mapped.\<close>

fun map_result :: "('a \<Rightarrow> 'b) \<Rightarrow> 'a completion \<Rightarrow> 'b completion" where
  "map_result f (Normal x) = Normal (f x)"
| "map_result f (Abrupt e) = Abrupt e"

text \<open>Reading the three parts of a method's outcome.\<close>

definition completion_of :: "'a \<times> 'b \<times> 'c \<Rightarrow> 'a" where
  "completion_of r = fst r"

definition handle_of :: "'a \<times> 'b \<times> 'c \<Rightarrow> 'b" where
  "handle_of r = fst (snd r)"

definition world_of :: "'a \<times> 'b \<times> 'c \<Rightarrow> 'c" where
  "world_of r = snd (snd r)"

text \<open>A document that holds the body (node 0) and nothing else, and no object.\<close>

definition world0 :: world where
  "world0 = \<lparr>kind_of = (\<lambda>n. if n = 0 then Some (Element ''body'') else None),
             attrs_of = (\<lambda>n. []), parent_of = (\<lambda>n. None), children_of = (\<lambda>n. []),
             next_node = 1, body = 0, objects = (\<lambda>r. []), next_object = 0\<rparr>"

text \<open>\<^verbatim>\<open>first = new TagLegacy("p")\<close>, then \<^verbatim>\<open>second = new TagLegacy("div")\<close>: nodes 1 and 2 under the body.\<close>

definition first_p :: "unit completion \<times> TagLegacy \<times> world" where
  "first_p = TagLegacy_constructor ''p'' None (Value Undefined) None world0"

definition second_div :: "unit completion \<times> TagLegacy \<times> world" where
  "second_div = TagLegacy_constructor ''div'' None (Value Undefined) None (world_of first_p)"

text \<open>\<^verbatim>\<open>first.toPosition("last")\<close> in that document.\<close>

definition first_to_last :: "unit completion \<times> TagLegacy \<times> world" where
  "first_to_last = TagLegacy_toPosition Last (handle_of first_p) (world_of second_div)"

text \<open>\<^verbatim>\<open>first.type = "div"\<close> on the handle of the paragraph, alone under the body.\<close>

definition first_retyped :: "unit completion \<times> TagLegacy \<times> world" where
  "first_retyped = TagLegacy_set_type ''div'' (handle_of first_p) (world_of first_p)"

text \<open>A document whose body holds one element with the id \<^verbatim>\<open>x\<close> (node 1).\<close>

definition world_with_x :: world where
  "world_with_x = world0\<lparr>kind_of := (kind_of world0)(1 \<mapsto> Element ''span''),
                         attrs_of := (attrs_of world0)(1 := [(''id'', ''x'')]),
                         parent_of := (parent_of world0)(1 \<mapsto> 0),
                         children_of := (children_of world0)(0 := [1]),
                         next_node := 2\<rparr>"

text \<open>\<^verbatim>\<open>new TagLegacy("DIV")\<close> in the empty document.\<close>

definition upper_DIV :: "unit completion \<times> TagLegacy \<times> world" where
  "upper_DIV = TagLegacy_constructor ''DIV'' None (Value Undefined) None world0"

text \<open>
  The empty document with the mapping \<^verbatim>\<open>{id: "list1"}\<close> as object 0, and
  \<^verbatim>\<open>new TagLegacy("ul", {id: "list1"}, undefined, ["a", "b"])\<close> in it.
\<close>

definition world_list1 :: world where
  "world_list1 = set_object 0 [(''id'', PStr ''list1'')] (snd (new_object world0))"

definition ul_example :: "unit completion \<times> TagLegacy \<times> world" where
  "ul_example = TagLegacy_constructor ''ul'' (Some 0) (Value Undefined) (Some [Str ''a'', Str ''b'']) world_list1"

text \<open>After it, the mapping \<^verbatim>\<open>{TITLE: "t"}\<close> as object 1, assigned to the attributes of the list.\<close>

definition world_title :: world where
  "world_title = set_object 1 [(''TITLE'', PStr ''t'')] (snd (new_object (world_of ul_example)))"

text \<open>
  Read, modify, write back: \<^verbatim>\<open>a = first.attributes; a.id = "x"; first.attributes = a\<close>,
  and then \<^verbatim>\<open>first.attributes\<close> read again.
\<close>

definition read_attrs :: "nat completion \<times> TagLegacy \<times> world" where
  "read_attrs = TagLegacy_get_attributes (handle_of first_p) (world_of first_p)"

definition edited_world :: world where
  "edited_world = set_object 0 (object_put ''id'' (PStr ''x'') (objects (world_of read_attrs) 0)) (world_of read_attrs)"

definition written_back :: "unit completion \<times> TagLegacy \<times> world" where
  "written_back = TagLegacy_set_attributes 0 (handle_of read_attrs) edited_world"

definition read_again :: "nat completion \<times> TagLegacy \<times> world" where
  "read_again = TagLegacy_get_attributes (handle_of written_back) (world_of written_back)"

text \<open>
  After the list example, the mapping \<^verbatim>\<open>JSON.parse('{"__proto__": "x"}')\<close>, which has the own
  key \<^verbatim>\<open>__proto__\<close>, as object 1, assigned to the attributes of the list and read back.
\<close>

definition world_proto :: world where
  "world_proto = set_object 1 [(''__proto__'', PStr ''x'')] (snd (new_object (world_of ul_example)))"

definition proto_assigned :: "unit completion \<times> TagLegacy \<times> world" where
  "proto_assigned = TagLegacy_set_attributes 1 (handle_of ul_example) world_proto"

definition proto_read :: "nat completion \<times> TagLegacy \<times> world" where
  "proto_read = TagLegacy_get_attributes (handle_of proto_assigned) (world_of proto_assigned)"

text \<open>The paragraph taken out of the body by the platform, and by \<^verbatim>\<open>first.remove()\<close>.\<close>

definition detached_world :: world where
  "detached_world = detach 1 (world_of first_p)"

definition removed_p :: "unit completion \<times> TagLegacy \<times> world" where
  "removed_p = TagLegacy_remove (handle_of first_p) (world_of first_p)"

text \<open>A handle of the current class on node 1.\<close>

definition tag_on_1 :: Tag where
  "tag_on_1 = \<lparr>t_debug = Bool False, t_element = NodeRef 1,
               stored_name = None, stored_parent = None, stored_attributes = None\<rparr>"

text \<open>
  The empty document with the mappings \<^verbatim>\<open>{hidden: ""}\<close> (object 0) and
  \<^verbatim>\<open>{ID: "x", hidden: false}\<close> (object 1), and a new \<^verbatim>\<open>div\<close> (node 1) made by \<^verbatim>\<open>new Tag()\<close>.
\<close>

definition world_hidden :: world where
  "world_hidden =
     new_node (Element ''div'')
       (set_object 1 [(''ID'', PStr ''x''), (''hidden'', PBool False)]
          (snd (new_object (set_object 0 [(''hidden'', PStr [])] (snd (new_object world0))))))"

definition hidden_assigned :: "unit completion \<times> Tag \<times> world" where
  "hidden_assigned = Tag_set_attributes (ObjRef 0) tag_on_1 world_hidden"

section \<open>Properties\<close>

subsection \<open>Strings\<close>

lemma valid_name_div: "valid_name ''div''"
  by (simp add: name_start_char_def name_char_def upper_case_def lower_case_def)

lemma toLowerCase_div: "toLowerCase ''div'' = ''div''"
  by (simp add: toLowerCase_def ascii_lower_def upper_case_def lower_case_def)

lemma createElement_div:
  "createElement ''div'' w = (Normal (next_node w), new_node (Element ''div'') w)"
  using valid_name_div by (simp add: createElement_def toLowerCase_div del: valid_name.simps)

lemma ascii_lower_upper: "ascii_lower (ascii_upper c) = ascii_lower c"
  unfolding ascii_lower_def ascii_upper_def upper_case_def lower_case_def
  by (simp split: if_splits)

lemma ascii_lower_idem: "ascii_lower (ascii_lower c) = ascii_lower c"
  unfolding ascii_lower_def upper_case_def lower_case_def
  by (simp split: if_splits)

lemma ascii_lower_fixed: "(ascii_lower c = c) = (c \<notin> set upper_case)"
  unfolding ascii_lower_def upper_case_def lower_case_def
  by (simp split: if_splits)

lemma toLowerCase_tagName: "toLowerCase (tagName (toLowerCase s)) = toLowerCase s"
  by (simp add: toLowerCase_def tagName_def toUpperCase_def ascii_lower_upper ascii_lower_idem)

lemma toLowerCase_idem: "toLowerCase (toLowerCase s) = toLowerCase s"
  by (simp add: toLowerCase_def ascii_lower_idem)

lemma toLowerCase_fixed: "(toLowerCase s = s) = list_all (\<lambda>c. c \<notin> set upper_case) s"
  by (induction s) (simp_all add: toLowerCase_def ascii_lower_fixed)

subsection \<open>Outcomes and attribute lists\<close>

lemma outcome_parts: "r = (completion_of r, handle_of r, world_of r)"
  by (simp add: completion_of_def handle_of_def world_of_def)

lemma set_attrs_fields [simp]:
  "attrs_of (set_attrs n al w) = (attrs_of w)(n := al)"
  "kind_of (set_attrs n al w) = kind_of w"
  "parent_of (set_attrs n al w) = parent_of w"
  "children_of (set_attrs n al w) = children_of w"
  "next_node (set_attrs n al w) = next_node w"
  "body (set_attrs n al w) = body w"
  "objects (set_attrs n al w) = objects w"
  "next_object (set_attrs n al w) = next_object w"
  by (simp_all add: set_attrs_def)

lemma set_attrs_twice [simp]: "set_attrs n al (set_attrs n al' w) = set_attrs n al w"
  by (simp add: set_attrs_def)

lemma set_attrs_same [simp]: "set_attrs n (attrs_of w n) w = w"
  by (simp add: set_attrs_def)

lemma written_Nil [simp]: "written [] al = al"
  by (simp add: written_def)

lemma written_Cons [simp]:
  "written (e # es) al = written es (AList.update (toLowerCase (fst e)) (prim_to_string (snd e)) al)"
  by (simp add: written_def lowered_def)

lemma map_of_written:
  "map_of (written es al) = map_of al ++ map_of (rev (map lowered es))"
proof (induction es arbitrary: al)
  case Nil
  then show ?case by simp
next
  case (Cons e es)
  have "map_of (written (e # es) al) =
        map_of (AList.update (toLowerCase (fst e)) (prim_to_string (snd e)) al) ++ map_of (rev (map lowered es))"
    using Cons.IH by simp
  also have "\<dots> = map_of al ++ map_of (rev (map lowered (e # es)))"
    by (rule ext) (auto simp add: update_conv' map_add_def lowered_def split: option.splits)
  finally show ?case .
qed

lemma attrs_wf_update:
  "attrs_wf al \<Longrightarrow> attrs_wf (AList.update (toLowerCase k) v al)"
  by (simp add: attrs_wf_def distinct_update update_keys toLowerCase_idem)

lemma attrs_wf_written: "attrs_wf al \<Longrightarrow> attrs_wf (written es al)"
  by (induction es arbitrary: al) (simp_all add: attrs_wf_update)

lemma map_of_unique:
  assumes "e \<in> set xs" and "\<forall>e' \<in> set xs. fst e' = fst e \<longrightarrow> snd e' = snd e"
  shows "map_of xs (fst e) = Some (snd e)"
proof -
  obtain y where y: "map_of xs (fst e) = Some y"
    using assms(1) weak_map_of_SomeI [of "fst e" "snd e" xs] by auto
  then have "(fst e, y) \<in> set xs" by (rule map_of_SomeD)
  then have "y = snd e" using assms(2) by force
  then show ?thesis using y by simp
qed

lemma written_lookup:
  assumes "e \<in> set es"
      and "\<forall>e' \<in> set es. toLowerCase (fst e') = toLowerCase (fst e) \<longrightarrow> snd e' = snd e"
  shows "map_of (written es al) (toLowerCase (fst e)) = Some (prim_to_string (snd e))"
proof -
  have "map_of (rev (map lowered es)) (fst (lowered e)) = Some (snd (lowered e))"
  proof (rule map_of_unique)
    show "lowered e \<in> set (rev (map lowered es))" using assms(1) by simp
    show "\<forall>e'\<in>set (rev (map lowered es)). fst e' = fst (lowered e) \<longrightarrow> snd e' = snd (lowered e)"
      using assms(2) by (auto simp add: lowered_def)
  qed
  then show ?thesis by (simp add: map_of_written lowered_def)
qed

subsection \<open>What the platform calls keep\<close>

lemma kinds_kept_refl: "kinds_kept w w"
  by (simp add: kinds_kept_def)

lemma kinds_kept_trans: "kinds_kept w w1 \<Longrightarrow> kinds_kept w1 w2 \<Longrightarrow> kinds_kept w w2"
  by (auto simp add: kinds_kept_def)

lemma kinds_kept_new_node: "kinds_kept w (new_node k w)"
  by (simp add: kinds_kept_def new_node_def)

lemma appendChild_kinds: "kind_of (snd (appendChild p c w)) = kind_of w \<and> next_node (snd (appendChild p c w)) = next_node w"
  by (simp add: appendChild_def move_children_def insert_last_def detach_def
      split: option.splits node_kind.splits)

lemma call_appendChild_kinds:
  "kind_of (snd (call_appendChild t v w)) = kind_of w \<and> next_node (snd (call_appendChild t v w)) = next_node w"
  by (simp add: call_appendChild_def appendChild_kinds split: jsvalue.splits)

lemma arg_appendChild_kinds:
  "kind_of (snd (arg_appendChild a v w)) = kind_of w \<and> next_node (snd (arg_appendChild a v w)) = next_node w"
  by (simp add: arg_appendChild_def call_appendChild_kinds split: handle_arg.splits)

lemma call_setAttribute_kinds:
  "kind_of (snd (call_setAttribute t k v w)) = kind_of w \<and> next_node (snd (call_setAttribute t k v w)) = next_node w"
  by (simp add: call_setAttribute_def setAttribute_def split: jsvalue.splits)

lemma setAttribute_loop_kinds:
  "kind_of (snd (setAttribute_loop t es w)) = kind_of w \<and> next_node (snd (setAttribute_loop t es w)) = next_node w"
proof (induction es arbitrary: w)
  case Nil
  then show ?case by simp
next
  case (Cons e es)
  obtain k v where e: "e = (k, v)" by (cases e)
  obtain c w1 where r: "call_setAttribute t k v w = (c, w1)" by (cases "call_setAttribute t k v w")
  have w1: "kind_of w1 = kind_of w \<and> next_node w1 = next_node w"
    using call_setAttribute_kinds [of t k v w] r by simp
  show ?case
  proof (cases c)
    case (Normal u)
    then show ?thesis using Cons.IH [of w1] w1 r e by simp
  next
    case (Abrupt x)
    then show ?thesis using w1 r e by simp
  qed
qed

lemma appendChildren_kinds: "kinds_kept w (snd (appendChildren t cs w))"
proof (induction cs arbitrary: w)
  case Nil
  then show ?case by (simp add: kinds_kept_refl)
next
  case (Cons element cs)
  define step where "step = (case element of
              Str s \<Rightarrow> (case createTextNode s w of (m, w1) \<Rightarrow> call_appendChild t (NodeRef m) w1)
            | _ \<Rightarrow> call_appendChild t element w)"
  obtain c w2 where r: "step = (c, w2)" by (cases step)
  have k: "kinds_kept w w2"
  proof (cases element)
    case (Str s)
    then have "w2 = snd (call_appendChild t (NodeRef (next_node w)) (new_node (Text s) w))"
      using r by (simp add: step_def createTextNode_def)
    then show ?thesis
      using call_appendChild_kinds [of t "NodeRef (next_node w)" "new_node (Text s) w"] kinds_kept_new_node [of w "Text s"]
      by (simp add: kinds_kept_def)
  qed (use r call_appendChild_kinds [of t element w] in \<open>auto simp add: step_def kinds_kept_def\<close>)
  show ?case
  proof (cases c)
    case (Normal u)
    have "appendChildren t (element # cs) w = appendChildren t cs w2"
      using r Normal by (simp add: step_def)
    then show ?thesis using Cons.IH [of w2] k kinds_kept_trans by metis
  next
    case (Abrupt x)
    have "appendChildren t (element # cs) w = (Abrupt x, w2)"
      using r Abrupt by (simp add: step_def)
    then show ?thesis using k by simp
  qed
qed

lemma appendChildren_kinds': "appendChildren t cs w = (c, w') \<Longrightarrow> kinds_kept w w'"
  using appendChildren_kinds [of w t cs] by simp

lemma self_in_inclusive_ancestors: "n \<in> set (inclusive_ancestors k w n)"
  by (cases k) simp_all

lemma appendChild_self:
  "appendChild n n w = (Abrupt HierarchyRequestError, w)"
  by (simp add: appendChild_def self_in_inclusive_ancestors split: option.splits node_kind.splits)

lemma arg_append_self:
  "snd (arg_append (Value v) v w) = w \<and>
   fst (arg_append (Value v) v w) \<in> {Abrupt TypeError, Abrupt HierarchyRequestError}"
  by (cases v) (simp_all add: arg_append_def appendChild_self split: option.splits node_kind.splits)

lemma arg_append_This: "arg_append This v w = (Abrupt TypeError, w)"
  by (simp add: arg_append_def)

subsection \<open>The loops over attributes\<close>

lemma setAttribute_loop_element:
  assumes "is_element_kind (kind_of w n)" and "names_valid es"
  shows "setAttribute_loop (NodeRef n) es w = (Normal (), set_attrs n (written es (attrs_of w n)) w)"
  using assms
proof (induction es arbitrary: w)
  case Nil
  then show ?case by simp
next
  case (Cons e es)
  obtain k v where e: "e = (k, v)" by (cases e)
  define w1 where "w1 = set_attrs n (AList.update (toLowerCase k) (prim_to_string v) (attrs_of w n)) w"
  have step: "call_setAttribute (NodeRef n) k v w = (Normal (), w1)"
    using Cons.prems e by (simp add: call_setAttribute_def setAttribute_def names_valid_def w1_def del: valid_name.simps)
  have "setAttribute_loop (NodeRef n) es w1 = (Normal (), set_attrs n (written es (attrs_of w1 n)) w1)"
    using Cons.prems by (intro Cons.IH) (simp_all add: w1_def names_valid_def)
  then show ?case using step e by (simp add: w1_def)
qed

lemma map_of_insert_index:
  "map_of ps k = None \<Longrightarrow> map_of (insert_index k v ps) = (map_of ps)(k \<mapsto> v)"
proof (induction ps)
  case Nil
  then show ?case by simp
next
  case (Cons p ps)
  obtain k' v' where p: "p = (k', v')" by (cases p)
  from Cons.prems p have ne: "k' \<noteq> k" and none: "map_of ps k = None"
    by (simp_all split: if_splits)
  show ?case
    using Cons.IH [OF none] ne by (auto simp add: p fun_eq_iff)
qed

lemma map_of_object_put:
  "map_of (object_put k v ps) = (if k = ''__proto__'' then map_of ps else (map_of ps)(k \<mapsto> v))"
  by (simp add: object_put_def map_of_insert_index update_conv')

text \<open>
  Array indices are enumerated first, in ascending order; a numeral with a leading zero
  is an ordinary key; \<^verbatim>\<open>__proto__\<close> gives no entry.
\<close>

lemma array_index_examples:
  "is_array_index ''0'' \<and> is_array_index ''4294967294'' \<and> \<not> is_array_index ''4294967295'' \<and>
   \<not> is_array_index ''01'' \<and> \<not> is_array_index ''id'' \<and> \<not> is_array_index []"
  by code_simp

lemma object_put_examples:
  "object_put ''1'' (PStr ''a'') [(''2'', PStr ''c''), (''b'', PStr ''d'')] =
     [(''1'', PStr ''a''), (''2'', PStr ''c''), (''b'', PStr ''d'')] \<and>
   object_put ''10'' (PStr ''a'') [(''2'', PStr ''c''), (''b'', PStr ''d'')] =
     [(''2'', PStr ''c''), (''10'', PStr ''a''), (''b'', PStr ''d'')] \<and>
   object_put ''01'' (PStr ''a'') [(''2'', PStr ''c''), (''b'', PStr ''d'')] =
     [(''2'', PStr ''c''), (''b'', PStr ''d''), (''01'', PStr ''a'')] \<and>
   object_put ''b'' (PStr ''a'') [(''2'', PStr ''c''), (''b'', PStr ''d'')] =
     [(''2'', PStr ''c''), (''b'', PStr ''a'')] \<and>
   object_put ''__proto__'' (PStr ''a'') [(''2'', PStr ''c''), (''b'', PStr ''d'')] =
     [(''2'', PStr ''c''), (''b'', PStr ''d'')]"
  by code_simp

lemma attributes_loop_cong:
  "attrs_of w1 n = attrs_of w n \<Longrightarrow> attributes_loop w1 n al acc = attributes_loop w n al acc"
  by (induction al arbitrary: acc) (auto simp add: getAttribute_def)

lemma attributes_loop_lookup:
  assumes "distinct (map fst al)"
      and "\<forall>e \<in> set al. getAttribute w n (fst e) = PStr (snd e)"
  shows "map_of (attributes_loop w n al acc) k =
           (if k \<noteq> ''__proto__'' \<and> k \<in> fst ` set al then map_option PStr (map_of al k) else map_of acc k)"
  using assms
proof (induction al arbitrary: acc)
  case Nil
  then show ?case by simp
next
  case (Cons e al)
  obtain nodeName v where e: "e = (nodeName, v)" by (cases e)
  have d: "distinct (map fst al)" and fresh: "nodeName \<notin> fst ` set al"
    using Cons.prems(1) e by simp_all
  have g: "getAttribute w n nodeName = PStr v"
    using Cons.prems(2) e by simp
  have rest: "\<forall>e \<in> set al. getAttribute w n (fst e) = PStr (snd e)"
    using Cons.prems(2) by simp
  have step: "map_of (attributes_loop w n al (object_put nodeName (PStr v) acc)) k =
           (if k \<noteq> ''__proto__'' \<and> k \<in> fst ` set al then map_option PStr (map_of al k)
            else map_of (object_put nodeName (PStr v) acc) k)"
    by (rule Cons.IH [OF d rest])
  show ?case
  proof (cases "k = nodeName")
    case True
    then show ?thesis using step fresh by (simp add: e g map_of_object_put)
  next
    case False
    then show ?thesis using step by (simp add: e g map_of_object_put)
  qed
qed

lemma getAttribute_wf:
  assumes "attrs_wf (attrs_of w n)" and "e \<in> set (attrs_of w n)"
  shows "getAttribute w n (fst e) = PStr (snd e)"
proof -
  have "toLowerCase (fst e) = fst e"
    using assms by (auto simp add: attrs_wf_def list_all_iff)
  moreover have "map_of (attrs_of w n) (fst e) = Some (snd e)"
    using assms by (cases e) (simp add: attrs_wf_def)
  ultimately show ?thesis by (simp add: getAttribute_def)
qed

lemma attributes_read:
  assumes "attrs_wf (attrs_of w n)"
  shows "map_of (attributes_loop w n (attrs_of w n) []) k =
           (if k = ''__proto__'' then None else map_option PStr (map_of (attrs_of w n) k))"
proof -
  have d: "distinct (map fst (attrs_of w n))"
    using assms by (simp add: attrs_wf_def)
  have g: "\<forall>e \<in> set (attrs_of w n). getAttribute w n (fst e) = PStr (snd e)"
    using getAttribute_wf [OF assms] by blast
  have absent: "map_of (attrs_of w n) k = None" if "k \<notin> fst ` set (attrs_of w n)"
    using that by (simp add: map_of_eq_None_iff)
  show ?thesis
    using absent by (simp add: attributes_loop_lookup [OF d g])
qed

lemma TagLegacy_get_attributes_element:
  assumes "f_tag h = NodeRef n" and "is_element_kind (kind_of w n)"
  shows "TagLegacy_get_attributes h w =
           (Normal (next_object w), h\<lparr>f_attributes := Some (next_object w)\<rparr>,
            set_object (next_object w) (attributes_loop w n (attrs_of w n) []) (snd (new_object w)))"
proof -
  obtain t where t: "kind_of w n = Some (Element t)"
    using assms(2) by (cases "kind_of w n" rule: is_element_kind.cases) auto
  define w1 where "w1 = snd (new_object w)"
  have same: "attrs_of w1 = attrs_of w" "kind_of w1 = kind_of w"
    by (simp_all add: w1_def new_object_def)
  have "attributes_loop w1 n (attrs_of w1 n) [] = attributes_loop w n (attrs_of w n) []"
    using attributes_loop_cong [of w1 n w] by (simp add: same)
  moreover have "new_object w = (next_object w, w1)"
    by (simp add: w1_def new_object_def)
  ultimately show ?thesis
    using assms(1) t same by (simp add: TagLegacy_get_attributes_def TagLegacy_get_tag_def Let_def)
qed

subsection \<open>The tree under construction\<close>

lemma new_node_fields [simp]:
  "kind_of (new_node k w) = (kind_of w)(next_node w \<mapsto> k)"
  "attrs_of (new_node k w) = (attrs_of w)(next_node w := [])"
  "parent_of (new_node k w) = (parent_of w)(next_node w := None)"
  "children_of (new_node k w) = (children_of w)(next_node w := [])"
  "next_node (new_node k w) = Suc (next_node w)"
  "body (new_node k w) = body w"
  "objects (new_node k w) = objects w"
  "next_object (new_node k w) = next_object w"
  by (simp_all add: new_node_def)

lemma insert_last_fields [simp]:
  "kind_of (insert_last p c w) = kind_of w"
  "attrs_of (insert_last p c w) = attrs_of w"
  "parent_of (insert_last p c w) = (parent_of w)(c \<mapsto> p)"
  "children_of (insert_last p c w) = (children_of w)(p := children_of w p @ [c])"
  "next_node (insert_last p c w) = next_node w"
  "body (insert_last p c w) = body w"
  "objects (insert_last p c w) = objects w"
  "next_object (insert_last p c w) = next_object w"
  by (simp_all add: insert_last_def)

lemma detach_fields [simp]:
  "kind_of (detach c w) = kind_of w"
  "attrs_of (detach c w) = attrs_of w"
  "parent_of (detach c w) = (parent_of w)(c := None)"
  "next_node (detach c w) = next_node w"
  "body (detach c w) = body w"
  "objects (detach c w) = objects w"
  "next_object (detach c w) = next_object w"
  by (auto simp add: detach_def split: option.splits)

lemma detach_children:
  "children_of (detach c w) q =
     (if parent_of w c = Some q then removeAll c (children_of w q) else children_of w q)"
  by (simp add: detach_def split: option.splits)

lemma detach_none: "parent_of w c = None \<Longrightarrow> detach c w = w"
  by (simp add: detach_def)

lemma last_removeAll:
  "xs \<noteq> [] \<Longrightarrow> last xs \<noteq> c \<Longrightarrow> removeAll c xs \<noteq> [] \<and> last (removeAll c xs) = last xs"
  by (induction xs) (auto split: if_splits)

lemma chain_is_head: "chain_is w p A \<Longrightarrow> p \<in> set A"
  by (induction w p A rule: chain_is.induct) auto

lemma chain_is_ancestors:
  "chain_is w p A \<Longrightarrow> length A \<le> Suc k \<Longrightarrow> inclusive_ancestors k w p = A"
proof (induction k arbitrary: p A)
  case 0
  then show ?case by (cases A) (auto simp add: Suc_le_eq)
next
  case (Suc k)
  show ?case
  proof (cases A)
    case Nil
    then show ?thesis using Suc.prems by simp
  next
    case (Cons a as)
    show ?thesis
    proof (cases as)
      case Nil
      then show ?thesis using Suc.prems Cons by simp
    next
      case (Cons b bs)
      then have "inclusive_ancestors k w b = b # bs"
        using Suc.prems \<open>A = a # as\<close> by (intro Suc.IH) auto
      then show ?thesis using Suc.prems Cons \<open>A = a # as\<close> by simp
    qed
  qed
qed

lemma chain_is_cong:
  "chain_is w p A \<Longrightarrow> (\<forall>a \<in> set A. parent_of w' a = parent_of w a) \<Longrightarrow> chain_is w' p A"
  by (induction w p A rule: chain_is.induct) auto

lemma length_inclusive_ancestors: "length (inclusive_ancestors k w p) \<le> Suc k"
  by (induction k arbitrary: p) (auto split: option.splits)

lemma appendChild_ok:
  assumes "is_container (kind_of w p)"
      and "c \<notin> set (inclusive_ancestors (next_node w) w p)"
      and "kind_of w c \<noteq> Some Fragment"
  shows "appendChild p c w = (Normal (), insert_last p c (detach c w))"
  using assms by (cases "kind_of w p" rule: is_container.cases) (simp_all add: appendChild_def)

lemma is_element_container: "is_element_kind k \<Longrightarrow> is_container k"
  by (cases k rule: is_element_kind.cases) auto

lemma build_inv_facts:
  assumes "build_inv n p A w"
  shows "is_element_kind (kind_of w n)" "parent_of w n = Some p" "chain_is w p A"
    "length A \<le> next_node w" "\<And>a. a \<in> set A \<Longrightarrow> a < n" "n < next_node w"
    "children_of w p \<noteq> []" "last (children_of w p) = n"
    "\<And>m. m \<in> set (children_of w n) \<Longrightarrow> m < next_node w \<and> m \<noteq> n \<and> parent_of w m = Some n"
    "p \<in> set A" "p < n" "n \<notin> set A"
  using assms chain_is_head [of w p A] by (auto simp add: build_inv_def)

lemma ancestors_of_new:
  assumes "build_inv n p A w"
  shows "inclusive_ancestors (next_node w) w n = n # A"
proof -
  obtain k where k: "next_node w = Suc k"
    using assms by (cases "next_node w") (auto simp add: build_inv_def)
  have "inclusive_ancestors k w p = A"
    using assms k by (intro chain_is_ancestors) (auto simp add: build_inv_def)
  then show ?thesis using assms k by (simp add: build_inv_def)
qed

lemma step_text:
  assumes inv: "build_inv n p A w"
  shows "call_appendChild (NodeRef n) (NodeRef (next_node w)) (new_node (Text s) w) =
           (Normal (), insert_last n (next_node w) (new_node (Text s) w))"
    and "build_inv n p A (insert_last n (next_node w) (new_node (Text s) w))"
proof -
  define m where "m = next_node w"
  define w1 where "w1 = new_node (Text s) w"
  note f = build_inv_facts [OF inv]
  have mn: "m \<noteq> n" "m \<notin> set A" "p \<noteq> m" "p \<noteq> n"
    using f(5) [of m] f(6) f(11) by (auto simp add: m_def)
  have ch1: "chain_is w1 p A"
    using f(3) by (rule chain_is_cong) (use mn [unfolded m_def] in \<open>auto simp add: w1_def\<close>)
  have kids1: "\<forall>x \<in> set (children_of w1 n). x < next_node w1 \<and> x \<noteq> n \<and> parent_of w1 x = Some n"
  proof
    fix x assume "x \<in> set (children_of w1 n)"
    then have "x \<in> set (children_of w n)" using mn by (simp add: w1_def m_def)
    from f(9) [OF this] show "x < next_node w1 \<and> x \<noteq> n \<and> parent_of w1 x = Some n"
      by (simp add: w1_def)
  qed
  have inv1: "build_inv n p A w1"
    unfolding build_inv_def
  proof (intro conjI)
    show "is_element_kind (kind_of w1 n)" using f(1) mn by (simp add: w1_def m_def)
    show "parent_of w1 n = Some p" using f(2) mn by (simp add: w1_def m_def)
    show "chain_is w1 p A" by (rule ch1)
    show "length A \<le> next_node w1" using f(4) by (simp add: w1_def)
    show "\<forall>a \<in> set A. a < n" using f(5) by blast
    show "n < next_node w1" using f(6) by (simp add: w1_def)
    show "children_of w1 p \<noteq> []" using f(7) mn by (simp add: w1_def m_def)
    show "last (children_of w1 p) = n" using f(8) mn by (simp add: w1_def m_def)
    show "\<forall>x \<in> set (children_of w1 n). x < next_node w1 \<and> x \<noteq> n \<and> parent_of w1 x = Some n"
      by (rule kids1)
  qed
  have anc: "inclusive_ancestors (next_node w1) w1 n = n # A"
    using inv1 by (rule ancestors_of_new)
  have "appendChild n m w1 = (Normal (), insert_last n m (detach m w1))"
  proof (rule appendChild_ok)
    show "is_container (kind_of w1 n)"
      using build_inv_facts(1) [OF inv1] by (rule is_element_container)
    show "m \<notin> set (inclusive_ancestors (next_node w1) w1 n)"
      using mn by (simp add: anc)
    show "kind_of w1 m \<noteq> Some Fragment"
      by (simp add: w1_def m_def)
  qed
  moreover have "detach m w1 = w1"
    by (rule detach_none) (simp add: w1_def m_def)
  ultimately show "call_appendChild (NodeRef n) (NodeRef (next_node w)) (new_node (Text s) w) =
           (Normal (), insert_last n (next_node w) (new_node (Text s) w))"
    by (simp add: call_appendChild_def w1_def m_def)
  note f1 = build_inv_facts [OF inv1]
  have ch2: "chain_is (insert_last n m w1) p A"
    using f1(3) by (rule chain_is_cong) (use mn in auto)
  have kids2: "\<forall>x \<in> set (children_of (insert_last n m w1) n).
                 x < next_node (insert_last n m w1) \<and> x \<noteq> n \<and> parent_of (insert_last n m w1) x = Some n"
  proof
    fix x assume "x \<in> set (children_of (insert_last n m w1) n)"
    then have "x = m \<or> x \<in> set (children_of w n)" using mn by (auto simp add: w1_def m_def)
    then show "x < next_node (insert_last n m w1) \<and> x \<noteq> n \<and> parent_of (insert_last n m w1) x = Some n"
    proof
      assume "x = m"
      then show ?thesis using mn by (simp add: w1_def m_def)
    next
      assume "x \<in> set (children_of w n)"
      from f(9) [OF this] show ?thesis by (auto simp add: w1_def m_def)
    qed
  qed
  have "build_inv n p A (insert_last n m w1)"
    unfolding build_inv_def
  proof (intro conjI)
    show "is_element_kind (kind_of (insert_last n m w1) n)" using f1(1) by simp
    show "parent_of (insert_last n m w1) n = Some p" using f1(2) mn by simp
    show "chain_is (insert_last n m w1) p A" by (rule ch2)
    show "length A \<le> next_node (insert_last n m w1)" using f1(4) by simp
    show "\<forall>a \<in> set A. a < n" using f(5) by blast
    show "n < next_node (insert_last n m w1)" using f1(6) by simp
    show "children_of (insert_last n m w1) p \<noteq> []" using f1(7) mn by simp
    show "last (children_of (insert_last n m w1) p) = n" using f1(8) mn by simp
    show "\<forall>x \<in> set (children_of (insert_last n m w1) n).
                 x < next_node (insert_last n m w1) \<and> x \<noteq> n \<and> parent_of (insert_last n m w1) x = Some n"
      by (rule kids2)
  qed
  then show "build_inv n p A (insert_last n (next_node w) (new_node (Text s) w))"
    by (simp add: w1_def m_def)
qed

lemma step_ref:
  assumes inv: "build_inv n p A w"
      and c: "c < n" "kind_of w c \<noteq> Some Fragment" "c \<notin> set A" "c \<notin> set (children_of w n)"
  shows "call_appendChild (NodeRef n) (NodeRef c) w = (Normal (), insert_last n c (detach c w))"
    and "build_inv n p A (insert_last n c (detach c w))"
    and "children_of (insert_last n c (detach c w)) n = children_of w n @ [c]"
proof -
  note f = build_inv_facts [OF inv]
  have anc: "inclusive_ancestors (next_node w) w n = n # A"
    using inv by (rule ancestors_of_new)
  have "appendChild n c w = (Normal (), insert_last n c (detach c w))"
  proof (rule appendChild_ok)
    show "is_container (kind_of w n)" using f(1) by (rule is_element_container)
    show "c \<notin> set (inclusive_ancestors (next_node w) w n)" using c by (simp add: anc)
    show "kind_of w c \<noteq> Some Fragment" by (rule c(2))
  qed
  then show "call_appendChild (NodeRef n) (NodeRef c) w = (Normal (), insert_last n c (detach c w))"
    by (simp add: call_appendChild_def)
  show kids: "children_of (insert_last n c (detach c w)) n = children_of w n @ [c]"
    using c(4) by (simp add: detach_children)
  have pn: "p \<noteq> n" using f(11) by simp
  have lastp: "children_of (insert_last n c (detach c w)) p \<noteq> [] \<and>
               last (children_of (insert_last n c (detach c w)) p) = n"
    using last_removeAll [of "children_of w p" c] f(7,8) c(1) pn
    by (simp add: detach_children)
  have ch: "chain_is (insert_last n c (detach c w)) p A"
    using f(3) by (rule chain_is_cong) (use c(3) in auto)
  have cn: "c \<noteq> n" using c(1) by simp
  have kids3: "\<forall>x \<in> set (children_of (insert_last n c (detach c w)) n).
                 x < next_node (insert_last n c (detach c w)) \<and> x \<noteq> n \<and>
                 parent_of (insert_last n c (detach c w)) x = Some n"
  proof
    fix x assume "x \<in> set (children_of (insert_last n c (detach c w)) n)"
    then have "x \<in> set (children_of w n @ [c])" by (simp only: kids)
    then have "x = c \<or> x \<in> set (children_of w n)" by auto
    then show "x < next_node (insert_last n c (detach c w)) \<and> x \<noteq> n \<and>
                 parent_of (insert_last n c (detach c w)) x = Some n"
    proof
      assume "x = c"
      then show ?thesis using c(1) f(6) by simp
    next
      assume x: "x \<in> set (children_of w n)"
      then have "x \<noteq> c" using c(4) by blast
      then show ?thesis using f(9) [OF x] by simp
    qed
  qed
  show "build_inv n p A (insert_last n c (detach c w))"
    unfolding build_inv_def
  proof (intro conjI)
    show "is_element_kind (kind_of (insert_last n c (detach c w)) n)" using f(1) by simp
    show "parent_of (insert_last n c (detach c w)) n = Some p" using f(2) cn by simp
    show "chain_is (insert_last n c (detach c w)) p A" by (rule ch)
    show "length A \<le> next_node (insert_last n c (detach c w))" using f(4) by simp
    show "\<forall>a \<in> set A. a < n" using f(5) by blast
    show "n < next_node (insert_last n c (detach c w))" using f(6) by simp
    show "children_of (insert_last n c (detach c w)) p \<noteq> []" using lastp by simp
    show "last (children_of (insert_last n c (detach c w)) p) = n" using lastp by simp
    show "\<forall>x \<in> set (children_of (insert_last n c (detach c w)) n).
                 x < next_node (insert_last n c (detach c w)) \<and> x \<noteq> n \<and>
                 parent_of (insert_last n c (detach c w)) x = Some n"
      by (rule kids3)
  qed
qed

lemma old_child_kinds:
  "\<forall>x<n. kind_of w2 x = kind_of w x \<Longrightarrow> old_child n A w2 v = old_child n A w v"
  by (cases v) auto

lemma expected_kind_kinds:
  "list_all (old_child n A w) cs \<Longrightarrow> \<forall>x<n. kind_of w2 x = kind_of w x \<Longrightarrow>
   map (expected_kind w2) cs = map (expected_kind w) cs"
proof (induction cs)
  case Nil
  then show ?case by simp
next
  case (Cons v cs)
  then show ?case by (cases v) auto
qed

lemma old_child_refs: "list_all (old_child n A w) cs \<Longrightarrow> c \<in> set (node_refs cs) \<Longrightarrow> c < n"
proof (induction cs)
  case Nil
  then show ?case by simp
next
  case (Cons v cs)
  then show ?case by (cases v) auto
qed

lemma child_ok_old:
  "child_ok w A v \<Longrightarrow> \<forall>x<next_node w. kind_of w3 x = kind_of w x \<Longrightarrow> old_child (next_node w) A w3 v"
  by (cases v) auto

lemma kinds_kept_below: "kinds_kept w w' \<Longrightarrow> x < next_node w \<Longrightarrow> kind_of w' x = kind_of w x"
  by (simp add: kinds_kept_def)

lemma appendChildren_builds:
  assumes "build_inv n p A w" and "rest_ok n A w cs"
  shows "\<exists>w'. appendChildren (NodeRef n) cs w = (Normal (), w') \<and> build_inv n p A w' \<and>
              children_of w' n = children_of w n @ expected_children (next_node w) cs \<and>
              kinds_kept w w' \<and> attrs_of w' n = attrs_of w n \<and>
              map (kind_of w') (expected_children (next_node w) cs) = map (expected_kind w) cs"
  using assms
proof (induction cs arbitrary: w)
  case Nil
  then show ?case by (simp add: kinds_kept_refl)
next
  case (Cons v cs)
  note inv = Cons.prems(1)
  note f = build_inv_facts [OF inv]
  have ok: "list_all (old_child n A w) (v # cs)" "distinct (node_refs (v # cs))"
           "set (node_refs (v # cs)) \<inter> set (children_of w n) = {}"
    using Cons.prems(2) by (simp_all add: rest_ok_def)
  show ?case
  proof (cases v)
    case (Str s)
    define m where "m = next_node w"
    define w2 where "w2 = insert_last n m (new_node (Text s) w)"
    have call: "call_appendChild (NodeRef n) (NodeRef m) (new_node (Text s) w) = (Normal (), w2)"
      and inv2: "build_inv n p A w2"
      using step_text [OF inv, of s] by (simp_all add: m_def w2_def)
    have nm: "n < m" using f(6) by (simp add: m_def)
    have below: "\<forall>x<n. kind_of w2 x = kind_of w x"
      using nm by (simp add: w2_def m_def)
    have kept: "kinds_kept w w2"
      by (simp add: kinds_kept_def w2_def m_def)
    have refs_small: "\<forall>c \<in> set (node_refs cs). c < n"
      using ok(1) Str old_child_refs [of n A w cs] by auto
    have rest: "rest_ok n A w2 cs"
      unfolding rest_ok_def
    proof (intro conjI)
      show "list_all (old_child n A w2) cs"
        using ok(1) old_child_kinds [OF below] by (simp add: list_all_iff)
      show "distinct (node_refs cs)" using ok(2) Str by simp
      have "children_of w2 n = children_of w n @ [m]" using nm by (simp add: w2_def m_def)
      then show "set (node_refs cs) \<inter> set (children_of w2 n) = {}"
        using ok(3) Str refs_small nm by auto
    qed
    from Cons.IH [OF inv2 rest] obtain w' where r:
      "appendChildren (NodeRef n) cs w2 = (Normal (), w')" "build_inv n p A w'"
      "children_of w' n = children_of w2 n @ expected_children (next_node w2) cs"
      "kinds_kept w2 w'" "attrs_of w' n = attrs_of w2 n"
      "map (kind_of w') (expected_children (next_node w2) cs) = map (expected_kind w2) cs"
      by blast
    have run: "appendChildren (NodeRef n) (v # cs) w = (Normal (), w')"
      using call r(1) Str by (simp add: createTextNode_def m_def)
    have kids: "children_of w' n = children_of w n @ expected_children (next_node w) (v # cs)"
      using r(3) Str nm by (simp add: w2_def m_def)
    have km: "kind_of w' m = Some (Text s)"
      using kinds_kept_below [OF r(4), of m] by (simp add: w2_def m_def)
    have kinds: "map (kind_of w') (expected_children (next_node w) (v # cs)) = map (expected_kind w) (v # cs)"
      using r(6) km expected_kind_kinds [of n A w cs w2] ok(1) below Str
      by (simp add: w2_def m_def)
    have attrs: "attrs_of w' n = attrs_of w n"
      using r(5) nm by (simp add: w2_def m_def)
    from run r(2) kids kinds_kept_trans [OF kept r(4)] attrs kinds show ?thesis by blast
  next
    case (NodeRef c)
    define w2 where "w2 = insert_last n c (detach c w)"
    have c: "c < n" "kind_of w c \<noteq> Some Fragment" "c \<notin> set A" "c \<notin> set (children_of w n)"
      using ok(1,3) NodeRef by auto
    have call: "call_appendChild (NodeRef n) (NodeRef c) w = (Normal (), w2)"
      and inv2: "build_inv n p A w2"
      and kids2: "children_of w2 n = children_of w n @ [c]"
      using step_ref [OF inv c] by (simp_all add: w2_def)
    have below: "\<forall>x<n. kind_of w2 x = kind_of w x" by (simp add: w2_def)
    have kept: "kinds_kept w w2" by (simp add: kinds_kept_def w2_def)
    have rest: "rest_ok n A w2 cs"
      unfolding rest_ok_def
    proof (intro conjI)
      show "list_all (old_child n A w2) cs"
        using ok(1) old_child_kinds [OF below] by (simp add: list_all_iff)
      show "distinct (node_refs cs)" using ok(2) NodeRef by simp
      show "set (node_refs cs) \<inter> set (children_of w2 n) = {}"
        using ok(2,3) NodeRef by (auto simp add: kids2)
    qed
    from Cons.IH [OF inv2 rest] obtain w' where r:
      "appendChildren (NodeRef n) cs w2 = (Normal (), w')" "build_inv n p A w'"
      "children_of w' n = children_of w2 n @ expected_children (next_node w2) cs"
      "kinds_kept w2 w'" "attrs_of w' n = attrs_of w2 n"
      "map (kind_of w') (expected_children (next_node w2) cs) = map (expected_kind w2) cs"
      by blast
    have run: "appendChildren (NodeRef n) (v # cs) w = (Normal (), w')"
      using call r(1) NodeRef by simp
    have kids: "children_of w' n = children_of w n @ expected_children (next_node w) (v # cs)"
      using r(3) NodeRef kids2 by (simp add: w2_def)
    have kc: "kind_of w' c = kind_of w c"
      using kinds_kept_below [OF r(4), of c] c(1) f(6) by (simp add: w2_def)
    have kinds: "map (kind_of w') (expected_children (next_node w) (v # cs)) = map (expected_kind w) (v # cs)"
      using r(6) kc expected_kind_kinds [of n A w cs w2] ok(1) below NodeRef
      by (simp add: w2_def)
    have attrs: "attrs_of w' n = attrs_of w n"
      using r(5) by (simp add: w2_def)
    from run r(2) kids kinds_kept_trans [OF kept r(4)] attrs kinds show ?thesis by blast
  qed (use ok(1) in simp_all)
qed

subsection \<open>The legacy constructor\<close>

text \<open>
  C2. The type is a name, the keys of the attribute mapping (if one is given) are names,
  the parent (the body when the parent argument is falsy) is an element or fragment of
  a well-formed tree, and the children are strings and references to distinct existing
  elements or text nodes, none of them the parent or above it. Then the constructor
  returns normally with a handle on a new node: an element of the given type (in lower
  case), carrying exactly what \<^verbatim>\<open>setAttribute\<close> of every entry of the mapping in order
  leaves, the last child of the parent, whose own children are, in order, a new text
  node for each string child and the referred node for each reference child, all of
  them with the new node as parent.
\<close>

theorem TagLegacy_constructor_builds:
  assumes ty: "valid_name type"
      and en: "names_valid (mapping_entries w attributes)"
      and pt: "parent_target w parent = Some p"
      and co: "is_container (kind_of w p)"
      and an: "ancestors_ok w p"
      and ch: "children_ok w p (case children of None \<Rightarrow> [] | Some cs \<Rightarrow> cs)"
  shows "\<exists>h w'. TagLegacy_constructor type attributes parent children w = (Normal (), h, w') \<and>
           f_tag h = NodeRef (next_node w) \<and>
           kind_of w' (next_node w) = Some (Element (toLowerCase type)) \<and>
           attrs_of w' (next_node w) = written (mapping_entries w attributes) [] \<and>
           (\<forall>e \<in> set (mapping_entries w attributes).
              (\<forall>e' \<in> set (mapping_entries w attributes).
                 toLowerCase (fst e') = toLowerCase (fst e) \<longrightarrow> snd e' = snd e) \<longrightarrow>
              getAttribute w' (next_node w) (fst e) = PStr (prim_to_string (snd e))) \<and>
           parent_of w' (next_node w) = Some p \<and>
           children_of w' p \<noteq> [] \<and> last (children_of w' p) = next_node w \<and>
           children_of w' (next_node w) =
             expected_children (Suc (next_node w)) (case children of None \<Rightarrow> [] | Some cs \<Rightarrow> cs) \<and>
           map (kind_of w') (children_of w' (next_node w)) =
             map (expected_kind w) (case children of None \<Rightarrow> [] | Some cs \<Rightarrow> cs) \<and>
           list_all (\<lambda>m. parent_of w' m = Some (next_node w)) (children_of w' (next_node w))"
proof -
  define n where "n = next_node w"
  define cs where "cs = (case children of None \<Rightarrow> [] | Some cs \<Rightarrow> cs)"
  define es where "es = mapping_entries w attributes"
  define A where "A = inclusive_ancestors n w p"
  define w1 where "w1 = new_node (Element (toLowerCase type)) w"
  define w2 where "w2 = set_attrs n (written es []) w1"
  define w3 where "w3 = insert_last p n w2"
  define h0 where "h0 = \<lparr>f_type = type, f_attributes = attributes, f_parent = parent, f_children = children,
                f_tag = Undefined, f_relatives = None\<rparr>"
  define h2 where "h2 = h0\<lparr>f_tag := NodeRef n, f_parent := Value (NodeRef p)\<rparr>"
  have chain: "chain_is w p A" and small: "\<forall>a \<in> set A. a < n"
    using an by (simp_all add: ancestors_ok_def A_def n_def list_all_iff)
  have pA: "p \<in> set A" using chain by (rule chain_is_head)
  have pn: "p < n" "p \<noteq> n" "n \<notin> set A" using pA small by auto
  have lenA: "length A \<le> Suc n" by (simp add: A_def length_inclusive_ancestors)
  \<comment> \<open>the element\<close>
  have s1: "createElement (f_type h0) w = (Normal n, w1)"
    using ty by (simp add: createElement_def w1_def n_def h0_def del: valid_name.simps)
  \<comment> \<open>the attributes\<close>
  have el1: "is_element_kind (kind_of w1 n)" by (simp add: w1_def n_def)
  have s2: "(case f_attributes (h0\<lparr>f_tag := NodeRef n\<rparr>) of
               None \<Rightarrow> (Normal (), w1)
             | Some r \<Rightarrow> setAttribute_loop (f_tag (h0\<lparr>f_tag := NodeRef n\<rparr>)) (objects w1 r) w1) = (Normal (), w2)"
  proof (cases attributes)
    case None
    have "set_attrs n (attrs_of w1 n) w1 = w1" by (rule set_attrs_same)
    then have "w2 = w1" using None by (simp add: w2_def es_def mapping_entries_def w1_def n_def)
    then show ?thesis using None by (simp add: h0_def)
  next
    case (Some r)
    have "names_valid (objects w1 r)" using en Some by (simp add: mapping_entries_def w1_def)
    from setAttribute_loop_element [OF el1 this]
    show ?thesis using Some by (simp add: h0_def w2_def es_def mapping_entries_def w1_def n_def)
  qed
  \<comment> \<open>the parent\<close>
  have par: "(if \<not> arg_truthy (f_parent (h0\<lparr>f_tag := NodeRef n\<rparr>))
              then h0\<lparr>f_tag := NodeRef n\<rparr>\<lparr>f_parent := Value (NodeRef (body w2))\<rparr>
              else h0\<lparr>f_tag := NodeRef n\<rparr>) = h2"
    using pt
    by (auto simp add: parent_target_def h0_def h2_def w2_def w1_def
        split: if_splits handle_arg.splits jsvalue.splits)
  have chain2: "chain_is w2 p A"
    using chain by (rule chain_is_cong) (use pn in \<open>auto simp add: w2_def w1_def n_def\<close>)
  have anc2: "inclusive_ancestors (next_node w2) w2 p = A"
    using chain2 lenA by (intro chain_is_ancestors) (simp_all add: w2_def w1_def n_def)
  have "appendChild p n w2 = (Normal (), insert_last p n (detach n w2))"
  proof (rule appendChild_ok)
    show "is_container (kind_of w2 p)" using co pn by (simp add: w2_def w1_def n_def)
    show "n \<notin> set (inclusive_ancestors (next_node w2) w2 p)" using pn by (simp add: anc2)
    show "kind_of w2 n \<noteq> Some Fragment" by (simp add: w2_def w1_def n_def)
  qed
  moreover have "detach n w2 = w2"
    by (rule detach_none) (simp add: w2_def w1_def n_def)
  ultimately have s3: "arg_appendChild (f_parent h2) (f_tag h2) w2 = (Normal (), w3)"
    by (simp add: arg_appendChild_def call_appendChild_def h2_def w3_def)
  \<comment> \<open>the children\<close>
  have below3: "\<forall>x<n. kind_of w3 x = kind_of w x"
    by (simp add: w3_def w2_def w1_def n_def)
  have inv3: "build_inv n p A w3"
    unfolding build_inv_def
  proof (intro conjI)
    show "is_element_kind (kind_of w3 n)" by (simp add: w3_def w2_def w1_def n_def)
    show "parent_of w3 n = Some p" by (simp add: w3_def)
    show "chain_is w3 p A"
      using chain2 by (rule chain_is_cong) (use pn in \<open>auto simp add: w3_def\<close>)
    show "length A \<le> next_node w3" using lenA by (simp add: w3_def w2_def w1_def n_def)
    show "\<forall>a \<in> set A. a < n" by (rule small)
    show "n < next_node w3" by (simp add: w3_def w2_def w1_def n_def)
    show "children_of w3 p \<noteq> []" by (simp add: w3_def)
    show "last (children_of w3 p) = n" by (simp add: w3_def)
    show "\<forall>m\<in>set (children_of w3 n). m < next_node w3 \<and> m \<noteq> n \<and> parent_of w3 m = Some n"
      using pn by (simp add: w3_def w2_def w1_def n_def)
  qed
  have rest3: "rest_ok n A w3 cs"
    unfolding rest_ok_def
  proof (intro conjI)
    show "list_all (old_child n A w3) cs"
      using ch child_ok_old [of w A _ w3] below3
      by (simp add: children_ok_def cs_def A_def n_def list_all_iff)
    show "distinct (node_refs cs)" using ch by (simp add: children_ok_def cs_def)
    show "set (node_refs cs) \<inter> set (children_of w3 n) = {}"
      using pn by (simp add: w3_def w2_def w1_def n_def)
  qed
  from appendChildren_builds [OF inv3 rest3] obtain w' where r:
    "appendChildren (NodeRef n) cs w3 = (Normal (), w')" "build_inv n p A w'"
    "children_of w' n = children_of w3 n @ expected_children (next_node w3) cs"
    "kinds_kept w3 w'" "attrs_of w' n = attrs_of w3 n"
    "map (kind_of w') (expected_children (next_node w3) cs) = map (expected_kind w3) cs"
    by blast
  have w'_none: "w' = w3" if "children = None"
    using r(1) that by (simp add: cs_def)
  have s4: "(case f_children h2 of
               None \<Rightarrow> (Normal (), h2, w3)
             | Some cs \<Rightarrow> (case appendChildren (f_tag h2) cs w3 of (c, w4) \<Rightarrow> (c, h2, w4))) = (Normal (), h2, w')"
    using r(1) w'_none by (cases children) (simp_all add: h2_def h0_def cs_def)
  have run: "TagLegacy_constructor type attributes parent children w = (Normal (), h2, w')"
    unfolding TagLegacy_constructor_def Let_def h0_def [symmetric]
    by (simp only: s1 s2 par s3 s4 prod.case completion.case)
  note f' = build_inv_facts [OF r(2)]
  have kids0: "children_of w3 n = []" using pn by (simp add: w3_def w2_def w1_def n_def)
  have kids: "children_of w' n = expected_children (Suc n) cs"
    using r(3) kids0 by (simp add: w3_def w2_def w1_def n_def)
  have kn: "kind_of w' n = Some (Element (toLowerCase type))"
    using kinds_kept_below [OF r(4), of n] by (simp add: w3_def w2_def w1_def n_def)
  have an': "attrs_of w' n = written es []"
    using r(5) by (simp add: w3_def w2_def)
  have kinds: "map (kind_of w') (children_of w' n) = map (expected_kind w) cs"
    using r(6) kids expected_kind_kinds [of n A w3 cs w] rest3 below3
    by (simp add: rest_ok_def w3_def w2_def w1_def n_def)
  have parents: "list_all (\<lambda>m. parent_of w' m = Some n) (children_of w' n)"
    using f'(9) by (simp add: list_all_iff)
  show ?thesis
  proof (intro exI [of _ h2] exI [of _ w'] conjI)
    show "TagLegacy_constructor type attributes parent children w = (Normal (), h2, w')" by (rule run)
    show "f_tag h2 = NodeRef (next_node w)" by (simp add: h2_def n_def)
    show "kind_of w' (next_node w) = Some (Element (toLowerCase type))" using kn by (simp add: n_def)
    show "attrs_of w' (next_node w) = written (mapping_entries w attributes) []"
      using an' by (simp add: n_def es_def)
    show "\<forall>e \<in> set (mapping_entries w attributes).
              (\<forall>e' \<in> set (mapping_entries w attributes).
                 toLowerCase (fst e') = toLowerCase (fst e) \<longrightarrow> snd e' = snd e) \<longrightarrow>
              getAttribute w' (next_node w) (fst e) = PStr (prim_to_string (snd e))"
    proof (intro ballI impI)
      fix e
      assume e: "e \<in> set (mapping_entries w attributes)"
        and u: "\<forall>e' \<in> set (mapping_entries w attributes).
                  toLowerCase (fst e') = toLowerCase (fst e) \<longrightarrow> snd e' = snd e"
      have "map_of (written (mapping_entries w attributes) []) (toLowerCase (fst e)) =
              Some (prim_to_string (snd e))"
        using e u by (rule written_lookup)
      then show "getAttribute w' (next_node w) (fst e) = PStr (prim_to_string (snd e))"
        using an' by (simp add: getAttribute_def n_def es_def)
    qed
    show "parent_of w' (next_node w) = Some p" using f'(2) by (simp add: n_def)
    show "children_of w' p \<noteq> []" by (rule f'(7))
    show "last (children_of w' p) = next_node w" using f'(8) by (simp add: n_def)
    show "children_of w' (next_node w) =
             expected_children (Suc (next_node w)) (case children of None \<Rightarrow> [] | Some cs \<Rightarrow> cs)"
      using kids by (simp add: n_def cs_def)
    show "map (kind_of w') (children_of w' (next_node w)) =
             map (expected_kind w) (case children of None \<Rightarrow> [] | Some cs \<Rightarrow> cs)"
      using kinds by (simp add: n_def cs_def)
    show "list_all (\<lambda>m. parent_of w' m = Some (next_node w)) (children_of w' (next_node w))"
      using parents by (simp add: n_def)
  qed
qed

text \<open>
  The example of the specification: type \<^verbatim>\<open>ul\<close>, attributes \<^verbatim>\<open>{id: "list1"}\<close>, no parent,
  children \<^verbatim>\<open>["a", "b"]\<close>.
\<close>

theorem construct_ul_witness:
  "completion_of ul_example = Normal () \<and>
   f_tag (handle_of ul_example) = NodeRef 1 \<and>
   kind_of (world_of ul_example) 1 = Some (Element ''ul'') \<and>
   attrs_of (world_of ul_example) 1 = [(''id'', ''list1'')] \<and>
   getAttribute (world_of ul_example) 1 ''id'' = PStr ''list1'' \<and>
   parent_of (world_of ul_example) 1 = Some 0 \<and>
   last (children_of (world_of ul_example) 0) = 1 \<and>
   children_of (world_of ul_example) 1 = [2, 3] \<and>
   map (kind_of (world_of ul_example)) (children_of (world_of ul_example) 1) =
     [Some (Text ''a''), Some (Text ''b'')]"
proof -
  have ty: "valid_name ''ul''" by code_simp
  have en: "names_valid (mapping_entries world_list1 (Some 0))" by code_simp
  have pt: "parent_target world_list1 (Value Undefined) = Some 0" by code_simp
  have co: "is_container (kind_of world_list1 0)" by code_simp
  have an: "ancestors_ok world_list1 0" by code_simp
  have ch: "children_ok world_list1 0 (case Some [Str ''a'', Str ''b''] of None \<Rightarrow> [] | Some cs \<Rightarrow> cs)"
    by code_simp
  have e1: "next_node world_list1 = 1" by code_simp
  have e2: "toLowerCase ''ul'' = ''ul''" by code_simp
  have e3: "written (mapping_entries world_list1 (Some 0)) [] = [(''id'', ''list1'')]" by code_simp
  have e4: "expected_children (Suc 1) [Str ''a'', Str ''b''] = [2, 3]" by code_simp
  have e5: "map (expected_kind world_list1) [Str ''a'', Str ''b''] = [Some (Text ''a''), Some (Text ''b'')]"
    by code_simp
  from TagLegacy_constructor_builds [OF ty en pt co an ch]
  obtain h w' where r:
    "TagLegacy_constructor ''ul'' (Some 0) (Value Undefined) (Some [Str ''a'', Str ''b'']) world_list1 =
       (Normal (), h, w') \<and>
     f_tag h = NodeRef (next_node world_list1) \<and>
     kind_of w' (next_node world_list1) = Some (Element (toLowerCase ''ul'')) \<and>
     attrs_of w' (next_node world_list1) = written (mapping_entries world_list1 (Some 0)) [] \<and>
     (\<forall>e \<in> set (mapping_entries world_list1 (Some 0)).
        (\<forall>e' \<in> set (mapping_entries world_list1 (Some 0)).
           toLowerCase (fst e') = toLowerCase (fst e) \<longrightarrow> snd e' = snd e) \<longrightarrow>
        getAttribute w' (next_node world_list1) (fst e) = PStr (prim_to_string (snd e))) \<and>
     parent_of w' (next_node world_list1) = Some 0 \<and>
     children_of w' 0 \<noteq> [] \<and> last (children_of w' 0) = next_node world_list1 \<and>
     children_of w' (next_node world_list1) =
       expected_children (Suc (next_node world_list1))
         (case Some [Str ''a'', Str ''b''] of None \<Rightarrow> [] | Some cs \<Rightarrow> cs) \<and>
     map (kind_of w') (children_of w' (next_node world_list1)) =
       map (expected_kind world_list1) (case Some [Str ''a'', Str ''b''] of None \<Rightarrow> [] | Some cs \<Rightarrow> cs) \<and>
     list_all (\<lambda>m. parent_of w' m = Some (next_node world_list1)) (children_of w' (next_node world_list1))"
    by (elim exE) (rule that)
  have u: "ul_example = (Normal (), h, w')"
    using r [THEN conjunct1] by (simp add: ul_example_def)
  have parts: "completion_of ul_example = Normal ()" "handle_of ul_example = h" "world_of ul_example = w'"
    by (simp_all add: u completion_of_def handle_of_def world_of_def)
  have e6: "mapping_entries world_list1 (Some 0) = [(''id'', PStr ''list1'')]" by code_simp
  note r2 = r [THEN conjunct2]
  note r3 = r2 [THEN conjunct2]
  note r4 = r3 [THEN conjunct2]
  note r5 = r4 [THEN conjunct2]
  note r6 = r5 [THEN conjunct2]
  note r7 = r6 [THEN conjunct2]
  note r8 = r7 [THEN conjunct2]
  note r9 = r8 [THEN conjunct2]
  have mem: "(''id'', PStr ''list1'') \<in> set (mapping_entries world_list1 (Some 0))"
    by (simp only: e6 list.set_intros)
  have uniq: "\<forall>e' \<in> set (mapping_entries world_list1 (Some 0)).
                toLowerCase (fst e') = toLowerCase (fst (''id'', PStr ''list1'')) \<longrightarrow>
                snd e' = snd (''id'', PStr ''list1'')"
    by (simp only: e6 list.set ball_simps insert_iff empty_iff simp_thms)
  have "getAttribute w' (next_node world_list1) (fst (''id'', PStr ''list1'')) =
          PStr (prim_to_string (snd (''id'', PStr ''list1'')))"
    using r5 [THEN conjunct1, THEN bspec, OF mem, THEN mp, OF uniq] .
  then have ga: "getAttribute w' 1 ''id'' = PStr ''list1''"
    by (simp only: fst_conv snd_conv e1 prim_to_string.simps)
  have c1: "f_tag h = NodeRef 1" using r2 [THEN conjunct1] by (simp only: e1)
  have c2: "kind_of w' 1 = Some (Element ''ul'')" using r3 [THEN conjunct1] by (simp only: e1 e2)
  have c3: "attrs_of w' 1 = [(''id'', ''list1'')]" using r4 [THEN conjunct1] by (simp only: e1 e3)
  have c4: "parent_of w' 1 = Some 0" using r6 [THEN conjunct1] by (simp only: e1)
  have c5: "last (children_of w' 0) = 1" using r8 [THEN conjunct1] by (simp only: e1)
  have c6: "children_of w' 1 = [2, 3]" using r9 [THEN conjunct1] by (simp only: e1 e4 option.case)
  have c7: "map (kind_of w') (children_of w' 1) = [Some (Text ''a''), Some (Text ''b'')]"
    using r9 [THEN conjunct2, THEN conjunct1] by (simp only: e1 e5 option.case)
  show ?thesis
    unfolding parts using c1 c2 c3 ga c4 c5 c6 c7 by (intro conjI) simp_all
qed

subsection \<open>The current constructor and string arguments\<close>

text \<open>
  C9. For every string argument (and every debug argument and document) the current
  constructor does not look the string up as an id: the guard of that branch compares
  the type of the unbound identifier \<^verbatim>\<open>id\<close> with \<^verbatim>\<open>'string'\<close>. The handle always gets a
  node that did not exist before, a new \<^verbatim>\<open>div\<close> without attributes, parent or children.
\<close>

theorem Tag_constructor_string_creates_div:
  "Tag_constructor (Str s) debug w =
     (Normal \<lparr>t_debug = (if truthy debug then debug else Bool False),
              t_element = NodeRef (next_node w),
              stored_name = None, stored_parent = None, stored_attributes = None\<rparr>,
      new_node (Element ''div'') w)"
  by (simp add: Tag_constructor_def typeof_id_def createElement_div)

text \<open>
  In a document where \<^verbatim>\<open>getElementById("x")\<close> finds node 1, \<^verbatim>\<open>new Tag("x")\<close> still wraps
  the new node 2.
\<close>

lemma Tag_constructor_ignores_existing_id:
  "getElementById world_with_x ''x'' = NodeRef 1 \<and>
   map_result t_element (fst (Tag_constructor (Str ''x'') Undefined world_with_x)) = Normal (NodeRef 2) \<and>
   kind_of (snd (Tag_constructor (Str ''x'') Undefined world_with_x)) 2 = Some (Element ''div'')"
  by code_simp

subsection \<open>Repositioning among siblings\<close>

text \<open>
  C1, at a failing input. The body holds the paragraph (node 1) and the division (node 2),
  in this order. \<^verbatim>\<open>toPosition("last")\<close> on the handle of the paragraph raises TypeError:
  the array of relatives has a hole where the paragraph stands, and the loop hands the
  hole to \<^verbatim>\<open>appendChild\<close>. The children of the body stay in their old order; the paragraph
  is not moved to the last position.
\<close>

theorem toPosition_last_throws_on_first_child:
  "completion_of first_p = Normal () \<and> completion_of second_div = Normal () \<and>
   f_tag (handle_of first_p) = NodeRef 1 \<and> f_tag (handle_of second_div) = NodeRef 2 \<and>
   children_of (world_of second_div) 0 = [1, 2] \<and>
   completion_of first_to_last = Abrupt TypeError \<and>
   f_relatives (handle_of first_to_last) = Some [None, Some (NodeRef 2), Some (NodeRef 1)] \<and>
   children_of (world_of first_to_last) 0 = [1, 2]"
  by code_simp

subsection \<open>Changing the type\<close>

text \<open>
  C3, at a failing input. After \<^verbatim>\<open>first.type = "div"\<close> the old node is detached, no node
  has been created, the handle's node reference is \<^verbatim>\<open>undefined\<close>, and reading the type
  raises TypeError.
\<close>

theorem set_type_loses_the_node:
  "completion_of first_p = Normal () \<and> f_tag (handle_of first_p) = NodeRef 1 \<and>
   completion_of first_retyped = Normal () \<and>
   f_tag (handle_of first_retyped) = Undefined \<and>
   next_node (world_of first_retyped) = next_node (world_of first_p) \<and>
   children_of (world_of first_retyped) 0 = [] \<and>
   completion_of (TagLegacy_get_type (handle_of first_retyped) (world_of first_retyped)) = Abrupt TypeError"
  by code_simp

subsection \<open>Parenting a handle to itself\<close>

lemma Tag_fix_frame:
  "m \<noteq> next_node w \<Longrightarrow>
   parent_of (world_of (Tag_fix th w)) m = parent_of w m \<and>
   children_of (world_of (Tag_fix th w)) m = children_of w m"
  by (simp add: Tag_fix_def world_of_def createElement_def new_node_def)

text \<open>
  C5. Setting the parent of a handle to the handle itself, or to its own node, leaves
  the document unchanged, in both classes. The legacy setter ends in an exception
  (TypeError: a handle has no method \<^verbatim>\<open>append\<close>; HierarchyRequestError or TypeError from
  the platform for the node itself) unless the cached parent already is that value, in
  which case it does nothing. The current setter, for a handle that has an element,
  falls through to its last branch and does nothing; without an element it does what
  \<^verbatim>\<open>fix\<close> does and no more, which at most creates a new detached element: the parent
  and the children of every node of the document stay as they were.
\<close>

theorem self_parenting_leaves_tree:
  assumes "truthy (t_element h)"
  shows "world_of (TagLegacy_set_parent This lh w) = w \<and>
         world_of (TagLegacy_set_parent (Value (f_tag lh)) lh w) = w \<and>
         (f_parent lh = This \<or> completion_of (TagLegacy_set_parent This lh w) = Abrupt TypeError) \<and>
         (f_parent lh = Value (f_tag lh) \<or>
            completion_of (TagLegacy_set_parent (Value (f_tag lh)) lh w)
              \<in> {Abrupt TypeError, Abrupt HierarchyRequestError}) \<and>
         Tag_set_parent This th w = Tag_fix th w \<and>
         (\<forall>m. m \<noteq> next_node w \<longrightarrow>
            parent_of (world_of (Tag_set_parent This th w)) m = parent_of w m \<and>
            children_of (world_of (Tag_set_parent This th w)) m = children_of w m) \<and>
         Tag_set_parent This h w = (Normal (), h, w) \<and>
         Tag_set_parent (OtherTag i (t_element h)) h w = (Normal (), h, w) \<and>
         Tag_set_parent (Value (t_element h)) h w = (Normal (), h, w)"
proof -
  have legacy_this: "world_of (TagLegacy_set_parent This lh w) = w"
    by (simp add: TagLegacy_set_parent_def world_of_def Let_def arg_append_This)
  have legacy_node: "world_of (TagLegacy_set_parent (Value (f_tag lh)) lh w) = w"
    using arg_append_self [of "f_tag lh" w]
    by (simp add: TagLegacy_set_parent_def world_of_def Let_def split_beta)
  have rej_this: "f_parent lh = This \<or> completion_of (TagLegacy_set_parent This lh w) = Abrupt TypeError"
    by (simp add: TagLegacy_set_parent_def completion_of_def Let_def arg_append_This)
  have rej_node: "f_parent lh = Value (f_tag lh) \<or>
      completion_of (TagLegacy_set_parent (Value (f_tag lh)) lh w) \<in> {Abrupt TypeError, Abrupt HierarchyRequestError}"
    using arg_append_self [of "f_tag lh" w]
    by (auto simp add: TagLegacy_set_parent_def completion_of_def Let_def split_beta)
  have fixed: "Tag_fix h w = (Normal (), h, w)"
    using assms by (simp add: Tag_fix_def)
  have tag_this: "Tag_set_parent This h w = (Normal (), h, w)"
    by (simp add: Tag_set_parent_def fixed)
  have tag_other: "Tag_set_parent (OtherTag i (t_element h)) h w = (Normal (), h, w)"
    by (simp add: Tag_set_parent_def fixed)
  have tag_node: "Tag_set_parent (Value (t_element h)) h w = (Normal (), h, w)"
    using assms by (simp add: Tag_set_parent_def fixed)
  have tag_fix: "Tag_set_parent This th w = Tag_fix th w"
    by (cases "Tag_fix th w" rule: prod_cases3) (auto simp add: Tag_set_parent_def split: completion.splits)
  have tag_frame: "\<forall>m. m \<noteq> next_node w \<longrightarrow>
            parent_of (world_of (Tag_set_parent This th w)) m = parent_of w m \<and>
            children_of (world_of (Tag_set_parent This th w)) m = children_of w m"
    by (simp add: tag_fix Tag_fix_frame)
  show ?thesis
    by (intro conjI) (rule legacy_this legacy_node rej_this rej_node tag_fix tag_frame tag_this tag_other tag_node)+
qed

theorem self_parenting_witness:
  "world_of (TagLegacy_set_parent This (handle_of first_p) (world_of first_p)) = world_of first_p \<and>
   world_of (TagLegacy_set_parent (Value (NodeRef 1)) (handle_of first_p) (world_of first_p)) = world_of first_p \<and>
   completion_of (TagLegacy_set_parent This (handle_of first_p) (world_of first_p)) = Abrupt TypeError \<and>
   completion_of (TagLegacy_set_parent (Value (NodeRef 1)) (handle_of first_p) (world_of first_p))
     = Abrupt HierarchyRequestError \<and>
   Tag_set_parent This tag_on_1 (world_of first_p) = (Normal (), tag_on_1, world_of first_p) \<and>
   Tag_set_parent (Value (NodeRef 1)) tag_on_1 (world_of first_p) = (Normal (), tag_on_1, world_of first_p)"
proof -
  have t: "truthy (t_element tag_on_1)" by (simp add: tag_on_1_def)
  have e1: "f_tag (handle_of first_p) = NodeRef 1" by code_simp
  have e2: "t_element tag_on_1 = NodeRef 1" by (simp add: tag_on_1_def)
  have e3: "completion_of (TagLegacy_set_parent This (handle_of first_p) (world_of first_p)) = Abrupt TypeError"
    by code_simp
  have e4: "completion_of (TagLegacy_set_parent (Value (NodeRef 1)) (handle_of first_p) (world_of first_p))
     = Abrupt HierarchyRequestError" by code_simp
  from self_parenting_leaves_tree [OF t, where lh = "handle_of first_p" and w = "world_of first_p" and i = 0 and th = "tag_on_1\<lparr>t_element := Null\<rparr>"] e1 e2 e3 e4
  show ?thesis by simp
qed

subsection \<open>Reading the parent of a legacy handle\<close>

text \<open>
  C10. The handle holds a node that is not a fragment. If the node has no parent (the
  body is an element, and the node is not above the body), reading \<^verbatim>\<open>parent\<close> makes the
  node the last child of the body and returns the body: the read changes the tree. If
  the node has a parent, the read returns that parent and leaves the document as it is.
  In both cases the cached parent of the handle is overwritten.
\<close>

theorem TagLegacy_get_parent_effect:
  assumes "f_tag h = NodeRef n" and "kind_of w n \<noteq> Some Fragment"
  shows "(parent_of w n = None \<and> is_element_kind (kind_of w (body w)) \<and>
          n \<notin> set (inclusive_ancestors (next_node w) w (body w)) \<longrightarrow>
            TagLegacy_get_parent h w =
              (Normal (Value (NodeRef (body w))), h\<lparr>f_parent := Value (NodeRef (body w))\<rparr>,
               insert_last (body w) n w) \<and>
            parent_of (world_of (TagLegacy_get_parent h w)) n = Some (body w) \<and>
            children_of (world_of (TagLegacy_get_parent h w)) (body w) = children_of w (body w) @ [n]) \<and>
         (\<forall>p. parent_of w n = Some p \<longrightarrow>
            TagLegacy_get_parent h w = (Normal (Value (NodeRef p)), h\<lparr>f_parent := Value (NodeRef p)\<rparr>, w))"
proof (intro conjI impI allI)
  assume a: "parent_of w n = None \<and> is_element_kind (kind_of w (body w)) \<and>
          n \<notin> set (inclusive_ancestors (next_node w) w (body w))"
  then obtain b where b: "kind_of w (body w) = Some (Element b)"
    by (cases "kind_of w (body w)" rule: is_element_kind.cases) auto
  have det: "detach n w = w" using a by (simp add: detach_def)
  have app: "appendChild (body w) n w = (Normal (), insert_last (body w) n w)"
    using a b assms(2) by (simp add: appendChild_def det)
  show g: "TagLegacy_get_parent h w =
              (Normal (Value (NodeRef (body w))), h\<lparr>f_parent := Value (NodeRef (body w))\<rparr>,
               insert_last (body w) n w)"
    using a b assms(1) app
    by (simp add: TagLegacy_get_parent_def TagLegacy_get_tag_def read_parentNode_def parentNode_def
        TagLegacy_set_parent_def arg_append_def Let_def)
  show "parent_of (world_of (TagLegacy_get_parent h w)) n = Some (body w)"
    by (simp add: g world_of_def insert_last_def)
  show "children_of (world_of (TagLegacy_get_parent h w)) (body w) = children_of w (body w) @ [n]"
    by (simp add: g world_of_def insert_last_def)
next
  fix p assume "parent_of w n = Some p"
  then show "TagLegacy_get_parent h w = (Normal (Value (NodeRef p)), h\<lparr>f_parent := Value (NodeRef p)\<rparr>, w)"
    using assms(1)
    by (simp add: TagLegacy_get_parent_def TagLegacy_get_tag_def read_parentNode_def parentNode_def Let_def)
qed

theorem get_parent_witness:
  "TagLegacy_get_parent (handle_of first_p) detached_world =
     (Normal (Value (NodeRef 0)), (handle_of first_p)\<lparr>f_parent := Value (NodeRef 0)\<rparr>,
      insert_last 0 1 detached_world) \<and>
   children_of detached_world 0 = [] \<and>
   children_of (world_of (TagLegacy_get_parent (handle_of first_p) detached_world)) 0 = [1] \<and>
   TagLegacy_get_parent (handle_of first_p) (world_of first_p) =
     (Normal (Value (NodeRef 0)), (handle_of first_p)\<lparr>f_parent := Value (NodeRef 0)\<rparr>, world_of first_p)"
proof -
  have t: "f_tag (handle_of first_p) = NodeRef 1" by code_simp
  have k1: "kind_of detached_world 1 \<noteq> Some Fragment" by code_simp
  have k2: "kind_of (world_of first_p) 1 \<noteq> Some Fragment" by code_simp
  have b: "body detached_world = 0" by code_simp
  have d: "parent_of detached_world 1 = None \<and> is_element_kind (kind_of detached_world (body detached_world)) \<and>
          1 \<notin> set (inclusive_ancestors (next_node detached_world) detached_world (body detached_world))"
    by code_simp
  have c: "children_of detached_world 0 = []" by code_simp
  have a: "parent_of (world_of first_p) 1 = Some 0" by code_simp
  from TagLegacy_get_parent_effect [OF t k1, THEN conjunct1, rule_format, OF d]
       TagLegacy_get_parent_effect [OF t k2, THEN conjunct2, rule_format, OF a] b c
  show ?thesis by (simp add: world_of_def insert_last_def)
qed

subsection \<open>Constructing, then reading the type\<close>

lemma TagLegacy_constructor_node:
  assumes "TagLegacy_constructor type attributes parent children w = (Normal (), h, w')"
  shows "f_tag h = NodeRef (next_node w) \<and> kind_of w' (next_node w) = Some (Element (toLowerCase type))"
proof -
  from assms have v: "valid_name type"
    by (auto simp add: TagLegacy_constructor_def createElement_def Let_def split: if_splits)
  define w1 where "w1 = new_node (Element (toLowerCase type)) w"
  define w2 where "w2 = (case attributes of None \<Rightarrow> w1 | Some r \<Rightarrow> snd (setAttribute_loop (NodeRef (next_node w)) (objects w1 r) w1))"
  define p where "p = (if \<not> arg_truthy parent then Value (NodeRef (body w2)) else parent)"
  define w3 where "w3 = snd (arg_appendChild p (NodeRef (next_node w)) w2)"
  have k1: "kind_of w1 (next_node w) = Some (Element (toLowerCase type)) \<and> next_node w1 = Suc (next_node w)"
    by (simp add: w1_def new_node_def)
  have k2: "kind_of w2 = kind_of w1 \<and> next_node w2 = next_node w1"
    using setAttribute_loop_kinds by (simp add: w2_def split: option.splits)
  have k3: "kind_of w3 = kind_of w2 \<and> next_node w3 = next_node w2"
    using arg_appendChild_kinds by (simp add: w3_def)
  have tag: "f_tag h = NodeRef (next_node w)"
    using assms v
    by (auto simp add: TagLegacy_constructor_def createElement_def Let_def
        split: if_splits prod.splits completion.splits option.splits)
  have "kinds_kept w3 w'"
    using assms v
    by (auto simp add: TagLegacy_constructor_def createElement_def Let_def w1_def w2_def w3_def p_def kinds_kept_refl
        split: if_splits prod.splits completion.splits option.splits dest: appendChildren_kinds')
  then have "kind_of w' (next_node w) = kind_of w3 (next_node w)"
    using k1 k2 k3 by (auto simp add: kinds_kept_def)
  then show ?thesis using tag k1 k2 k3 by simp
qed

text \<open>
  C7, as stated, fails for a type with an upper-case letter: \<^verbatim>\<open>new TagLegacy("DIV")\<close>
  succeeds, and reading its type gives \<^verbatim>\<open>"div"\<close>.
\<close>

theorem construct_DIV_reads_div:
  "completion_of upper_DIV = Normal () \<and>
   completion_of (TagLegacy_get_type (handle_of upper_DIV) (world_of upper_DIV)) = Normal ''div'' \<and>
   completion_of (TagLegacy_get_type (handle_of upper_DIV) (world_of upper_DIV)) \<noteq> Normal ''DIV''"
  by code_simp

text \<open>
  C7, amended. Whenever the constructor returns, reading the type of the new handle
  returns the type given to the constructor in ASCII lower case (the getter lower-cases
  the platform's tag name); that is the given type itself exactly when it has no
  upper-case letter.
\<close>

theorem construct_then_read_type:
  assumes "TagLegacy_constructor type attributes parent children w = (Normal (), h, w')"
  shows "TagLegacy_get_type h w' = (Normal (toLowerCase type), h\<lparr>f_type := toLowerCase type\<rparr>, w') \<and>
         (toLowerCase type = type) = list_all (\<lambda>c. c \<notin> set upper_case) type"
  using TagLegacy_constructor_node [OF assms]
  by (simp add: TagLegacy_get_type_def TagLegacy_get_tag_def Let_def toLowerCase_tagName toLowerCase_fixed)

theorem construct_ul_reads_ul:
  "completion_of ul_example = Normal () \<and>
   TagLegacy_get_type (handle_of ul_example) (world_of ul_example) =
     (Normal ''ul'', (handle_of ul_example)\<lparr>f_type := ''ul''\<rparr>, world_of ul_example)"
proof -
  have c: "completion_of ul_example = Normal ()" by code_simp
  have "TagLegacy_constructor ''ul'' (Some 0) (Value Undefined) (Some [Str ''a'', Str ''b'']) world_list1 =
          (Normal (), handle_of ul_example, world_of ul_example)"
    using outcome_parts [of ul_example] c by (simp add: ul_example_def)
  from construct_then_read_type [OF this] c
  show ?thesis by (simp add: toLowerCase_def ascii_lower_def upper_case_def lower_case_def)
qed

subsection \<open>Assigning attributes in the current class\<close>

text \<open>
  C8, as stated, fails: on a new \<^verbatim>\<open>div\<close> without attributes, assigning \<^verbatim>\<open>{hidden: ""}\<close>
  leaves the element with the attribute \<^verbatim>\<open>hidden\<close>, although the mapping has no truthy
  entry.
\<close>

theorem falsy_entry_is_written:
  "completion_of hidden_assigned = Normal () \<and>
   objects world_hidden 0 = [(''hidden'', PStr [])] \<and>
   attrs_of (world_of hidden_assigned) 1 = [(''hidden'', [])] \<and>
   truthy_entries (objects world_hidden 0) = []"
  by code_simp

text \<open>
  C8, amended. For a handle whose element (after \<^verbatim>\<open>fix\<close>) has no attribute, and a mapping
  whose keys are names, the setter returns normally, stores the mapping, and writes
  every entry of the mapping on the element, the falsy ones too: the element then
  carries exactly the entries of the mapping, each key in lower case and each value as
  a string (for two keys equal in lower case the later entry stands).
\<close>

theorem Tag_set_attributes_on_bare_element:
  assumes "Tag_fix h0 w0 = (Normal (), h, w)"
      and "t_element h = NodeRef n" and "is_element_kind (kind_of w n)" and "attrs_of w n = []"
      and "names_valid (objects w r)"
  shows "Tag_set_attributes (ObjRef r) h0 w0 =
           (Normal (), h\<lparr>stored_attributes := Some (ObjRef r)\<rparr>,
            set_attrs n (written (objects w r) []) w) \<and>
         map_of (written (objects w r) []) = map_of (rev (map lowered (objects w r)))"
proof -
  obtain t where t: "kind_of w n = Some (Element t)"
    using assms(3) by (cases "kind_of w n" rule: is_element_kind.cases) auto
  have g: "Tag_get_attributes h w = Normal []"
    using assms(2,4) t by (simp add: Tag_get_attributes_def)
  have l: "setAttribute_loop (NodeRef n) (objects w r) w =
           (Normal (), set_attrs n (written (objects w r) []) w)"
    using setAttribute_loop_element [OF assms(3) assms(5)] assms(4) by simp
  show ?thesis
    using assms(1,2) g l by (simp add: Tag_set_attributes_def map_of_written)
qed

theorem set_attributes_witness:
  "completion_of (Tag_set_attributes (ObjRef 1) tag_on_1 world_hidden) = Normal () \<and>
   objects world_hidden 1 = [(''ID'', PStr ''x''), (''hidden'', PBool False)] \<and>
   attrs_of (world_of (Tag_set_attributes (ObjRef 1) tag_on_1 world_hidden)) 1 =
     [(''id'', ''x''), (''hidden'', ''false'')]"
proof -
  have f: "Tag_fix tag_on_1 world_hidden = (Normal (), tag_on_1, world_hidden)"
    by (simp add: Tag_fix_def tag_on_1_def)
  have e: "t_element tag_on_1 = NodeRef 1" by (simp add: tag_on_1_def)
  have k: "is_element_kind (kind_of world_hidden 1)" by code_simp
  have a: "attrs_of world_hidden 1 = []" by code_simp
  have v: "names_valid (objects world_hidden 1)" by code_simp
  have o: "objects world_hidden 1 = [(''ID'', PStr ''x''), (''hidden'', PBool False)]" by code_simp
  have w: "written (objects world_hidden 1) [] = [(''id'', ''x''), (''hidden'', ''false'')]" by code_simp
  from Tag_set_attributes_on_bare_element [OF f e k a v] o w
  show ?thesis by (simp add: completion_of_def world_of_def)
qed

subsection \<open>Assigning attributes in the legacy class\<close>

text \<open>
  C4, as stated, fails when the assigned mapping is the object the handle has cached:
  after \<^verbatim>\<open>a = first.attributes; a.id = "x"; first.attributes = a\<close> the setter does nothing,
  and the attributes read afterwards have no key \<^verbatim>\<open>id\<close>.
\<close>

theorem write_back_same_object_is_ignored:
  "completion_of read_attrs = Normal 0 \<and>
   f_attributes (handle_of read_attrs) = Some 0 \<and>
   objects edited_world 0 = [(''id'', PStr ''x'')] \<and>
   completion_of written_back = Normal () \<and>
   attrs_of (world_of written_back) 1 = [] \<and>
   completion_of read_again = Normal 1 \<and>
   objects (world_of read_again) 1 = [] \<and>
   map_of (objects (world_of read_again) 1) ''id'' = None"
  by code_simp

text \<open>
  The attribute \<^verbatim>\<open>__proto__\<close>: the setter puts it on the node, after the attribute \<^verbatim>\<open>id\<close>
  that stays, and the mapping that the getter returns has the key \<^verbatim>\<open>id\<close> alone.
\<close>

lemma proto_attribute_is_not_read_back:
  "completion_of proto_assigned = Normal () \<and>
   attrs_of (world_of proto_assigned) 1 = [(''id'', ''list1''), (''__proto__'', ''x'')] \<and>
   completion_of proto_read = Normal 2 \<and>
   objects (world_of proto_read) 2 = [(''id'', PStr ''list1'')]"
  by code_simp

text \<open>
  C4, amended. The handle holds an element whose attribute list is as the platform
  keeps it, the assigned mapping is not the object cached in \<^verbatim>\<open>_attributes\<close>, and its keys
  are names. Then the setter returns normally and removes no attribute: every attribute
  name of the node is still on the node. The getter, called next, returns a mapping that
  has, for every entry of the assigned mapping, the key in lower case with the entry's
  value as a string (provided the entries with that lower-case key agree on the value),
  and that still has every attribute name the node had before; an attribute whose name
  is not a lower-cased key of the mapping keeps its value. What the getter returns is
  stated for the names other than \<^verbatim>\<open>__proto__\<close>: the getter collects the attributes by
  assignment to a plain object, which takes no property of that name.
\<close>

theorem set_then_get_attributes:
  assumes "f_tag h = NodeRef n" and "is_element_kind (kind_of w n)" and "attrs_wf (attrs_of w n)"
      and "f_attributes h \<noteq> Some a" and "names_valid (objects w a)"
  shows "\<exists>r h2 w2.
           completion_of (TagLegacy_set_attributes a h w) = Normal () \<and>
           TagLegacy_get_attributes (handle_of (TagLegacy_set_attributes a h w))
                                    (world_of (TagLegacy_set_attributes a h w)) = (Normal r, h2, w2) \<and>
           (\<forall>e \<in> set (objects w a).
              toLowerCase (fst e) \<noteq> ''__proto__'' \<and>
              (\<forall>e' \<in> set (objects w a). toLowerCase (fst e') = toLowerCase (fst e) \<longrightarrow> snd e' = snd e) \<longrightarrow>
              map_of (objects w2 r) (toLowerCase (fst e)) = Some (PStr (prim_to_string (snd e)))) \<and>
           (\<forall>k \<in> fst ` set (attrs_of w n). k \<noteq> ''__proto__'' \<longrightarrow> k \<in> fst ` set (objects w2 r)) \<and>
           (\<forall>k v. map_of (attrs_of w n) k = Some v \<and> k \<notin> toLowerCase ` fst ` set (objects w a) \<and>
                   k \<noteq> ''__proto__'' \<longrightarrow>
              map_of (objects w2 r) k = Some (PStr v)) \<and>
           (\<forall>k \<in> fst ` set (attrs_of w n).
              k \<in> fst ` set (attrs_of (world_of (TagLegacy_set_attributes a h w)) n))"
proof -
  define al where "al = written (objects w a) (attrs_of w n)"
  define w1 where "w1 = set_attrs n al w"
  define h1 where "h1 = h\<lparr>f_attributes := Some a\<rparr>"
  have s: "TagLegacy_set_attributes a h w = (Normal (), h1, w1)"
    using assms(1,4) setAttribute_loop_element [OF assms(2) assms(5)]
    by (simp add: TagLegacy_set_attributes_def Let_def h1_def w1_def al_def)
  have al1: "attrs_of w1 n = al"
    by (simp add: w1_def)
  have wf1: "attrs_wf (attrs_of w1 n)"
    using assms(3) by (simp add: al1 al_def attrs_wf_written)
  define r where "r = next_object w1"
  define h2 where "h2 = h1\<lparr>f_attributes := Some r\<rparr>"
  define w2 where "w2 = set_object r (attributes_loop w1 n (attrs_of w1 n) []) (snd (new_object w1))"
  have g: "TagLegacy_get_attributes h1 w1 = (Normal r, h2, w2)"
    unfolding r_def h2_def w2_def
    by (rule TagLegacy_get_attributes_element) (use assms(1,2) in \<open>simp_all add: h1_def w1_def\<close>)
  have obj: "objects w2 r = attributes_loop w1 n (attrs_of w1 n) []"
    by (simp add: w2_def set_object_def)
  have m: "map_of (objects w2 r) k =
             (if k = ''__proto__'' then None
              else map_option PStr ((map_of (attrs_of w n) ++ map_of (rev (map lowered (objects w a)))) k))" for k
    using attributes_read [OF wf1, of k] by (simp add: obj al1 al_def map_of_written)
  have part1: "map_of (objects w2 r) (toLowerCase (fst e)) = Some (PStr (prim_to_string (snd e)))"
    if e: "e \<in> set (objects w a)"
      and np: "toLowerCase (fst e) \<noteq> ''__proto__''"
      and u: "\<forall>e' \<in> set (objects w a). toLowerCase (fst e') = toLowerCase (fst e) \<longrightarrow> snd e' = snd e" for e
  proof -
    have "map_of (rev (map lowered (objects w a))) (fst (lowered e)) = Some (snd (lowered e))"
    proof (rule map_of_unique)
      show "lowered e \<in> set (rev (map lowered (objects w a)))" using e by simp
      show "\<forall>e'\<in>set (rev (map lowered (objects w a))). fst e' = fst (lowered e) \<longrightarrow> snd e' = snd (lowered e)"
        using u by (auto simp add: lowered_def)
    qed
    then show ?thesis using np by (simp add: m lowered_def)
  qed
  have kept: "(map_of (attrs_of w n) ++ map_of (rev (map lowered (objects w a)))) k \<noteq> None"
    if "k \<in> fst ` set (attrs_of w n)" for k
  proof -
    from that obtain e where e: "e \<in> set (attrs_of w n)" "k = fst e" by auto
    have "\<exists>v. map_of (attrs_of w n) k = Some v"
      using weak_map_of_SomeI [of "fst e" "snd e" "attrs_of w n"] e by simp
    then obtain v where v: "map_of (attrs_of w n) k = Some v" ..
    show ?thesis
      using v by (cases "map_of (rev (map lowered (objects w a))) k") (simp_all add: map_add_def)
  qed
  have part2: "k \<in> fst ` set (objects w2 r)" if "k \<in> fst ` set (attrs_of w n)" and "k \<noteq> ''__proto__''" for k
  proof -
    have "map_of (objects w2 r) k \<noteq> None"
      using kept [OF that(1)] that(2) by (simp add: m)
    then show ?thesis
      by (simp add: map_of_eq_None_iff)
  qed
  have part3: "map_of (objects w2 r) k = Some (PStr v)"
    if "map_of (attrs_of w n) k = Some v \<and> k \<notin> toLowerCase ` fst ` set (objects w a) \<and> k \<noteq> ''__proto__''" for k v
  proof -
    have "k \<notin> fst ` set (rev (map lowered (objects w a)))"
      using that by (auto simp add: lowered_def image_iff)
    then have "map_of (rev (map lowered (objects w a))) k = None"
      by (simp add: map_of_eq_None_iff)
    then show ?thesis using that by (simp add: m map_add_def)
  qed
  have part4: "k \<in> fst ` set (attrs_of w1 n)" if "k \<in> fst ` set (attrs_of w n)" for k
  proof -
    have "map_of al k \<noteq> None"
      using kept [OF that] by (simp add: al_def map_of_written)
    then show ?thesis
      by (simp add: al1 map_of_eq_None_iff)
  qed
  show ?thesis
  proof (intro exI [of _ r] exI [of _ h2] exI [of _ w2] conjI)
    show "completion_of (TagLegacy_set_attributes a h w) = Normal ()"
      by (simp add: s completion_of_def)
    show "TagLegacy_get_attributes (handle_of (TagLegacy_set_attributes a h w))
            (world_of (TagLegacy_set_attributes a h w)) = (Normal r, h2, w2)"
      by (simp add: s g handle_of_def world_of_def)
    show "\<forall>e \<in> set (objects w a).
            toLowerCase (fst e) \<noteq> ''__proto__'' \<and>
            (\<forall>e' \<in> set (objects w a). toLowerCase (fst e') = toLowerCase (fst e) \<longrightarrow> snd e' = snd e) \<longrightarrow>
            map_of (objects w2 r) (toLowerCase (fst e)) = Some (PStr (prim_to_string (snd e)))"
      using part1 by blast
    show "\<forall>k \<in> fst ` set (attrs_of w n). k \<noteq> ''__proto__'' \<longrightarrow> k \<in> fst ` set (objects w2 r)"
      using part2 by blast
    show "\<forall>k v. map_of (attrs_of w n) k = Some v \<and> k \<notin> toLowerCase ` fst ` set (objects w a) \<and>
                 k \<noteq> ''__proto__'' \<longrightarrow>
            map_of (objects w2 r) k = Some (PStr v)"
      using part3 by blast
    have wo: "world_of (TagLegacy_set_attributes a h w) = w1"
      by (simp add: s world_of_def)
    show "\<forall>k \<in> fst ` set (attrs_of w n).
            k \<in> fst ` set (attrs_of (world_of (TagLegacy_set_attributes a h w)) n)"
      unfolding wo using part4 by blast
  qed
qed

theorem set_then_get_attributes_witness:
  "\<exists>r h2 w2.
     TagLegacy_get_attributes (handle_of (TagLegacy_set_attributes 1 (handle_of ul_example) world_title))
                              (world_of (TagLegacy_set_attributes 1 (handle_of ul_example) world_title)) =
       (Normal r, h2, w2) \<and>
     map_of (objects w2 r) ''title'' = Some (PStr ''t'') \<and>
     map_of (objects w2 r) ''id'' = Some (PStr ''list1'')"
proof -
  have t: "f_tag (handle_of ul_example) = NodeRef 1" by code_simp
  have k: "is_element_kind (kind_of world_title 1)" by code_simp
  have wf: "attrs_wf (attrs_of world_title 1)" by code_simp
  have d: "f_attributes (handle_of ul_example) \<noteq> Some 1" by code_simp
  have v: "names_valid (objects world_title 1)" by code_simp
  have o: "objects world_title 1 = [(''TITLE'', PStr ''t'')]" by code_simp
  have l: "toLowerCase ''TITLE'' = ''title''" by code_simp
  have a: "map_of (attrs_of world_title 1) ''id'' = Some ''list1''" by code_simp
  from set_then_get_attributes [OF t k wf d v]
  obtain r h2 w2 where all:
    "completion_of (TagLegacy_set_attributes 1 (handle_of ul_example) world_title) = Normal () \<and>
     TagLegacy_get_attributes (handle_of (TagLegacy_set_attributes 1 (handle_of ul_example) world_title))
                              (world_of (TagLegacy_set_attributes 1 (handle_of ul_example) world_title)) =
       (Normal r, h2, w2) \<and>
     (\<forall>e \<in> set (objects world_title 1).
              toLowerCase (fst e) \<noteq> ''__proto__'' \<and>
              (\<forall>e' \<in> set (objects world_title 1). toLowerCase (fst e') = toLowerCase (fst e) \<longrightarrow> snd e' = snd e) \<longrightarrow>
              map_of (objects w2 r) (toLowerCase (fst e)) = Some (PStr (prim_to_string (snd e)))) \<and>
     (\<forall>k \<in> fst ` set (attrs_of world_title 1). k \<noteq> ''__proto__'' \<longrightarrow> k \<in> fst ` set (objects w2 r)) \<and>
     (\<forall>k v. map_of (attrs_of world_title 1) k = Some v \<and> k \<notin> toLowerCase ` fst ` set (objects world_title 1) \<and>
             k \<noteq> ''__proto__'' \<longrightarrow>
              map_of (objects w2 r) k = Some (PStr v)) \<and>
     (\<forall>k \<in> fst ` set (attrs_of world_title 1).
        k \<in> fst ` set (attrs_of (world_of (TagLegacy_set_attributes 1 (handle_of ul_example) world_title)) 1))"
    by (elim exE) (rule that)
  note g = all [THEN conjunct2, THEN conjunct1]
  note p1 = all [THEN conjunct2, THEN conjunct2, THEN conjunct1]
  note p3 = all [THEN conjunct2, THEN conjunct2, THEN conjunct2, THEN conjunct2, THEN conjunct1]
  have mem: "(''TITLE'', PStr ''t'') \<in> set (objects world_title 1)"
    by (simp only: o list.set_intros)
  have np: "toLowerCase (fst (''TITLE'', PStr ''t'')) \<noteq> ''__proto__''"
    by (simp only: fst_conv l) simp
  have u: "\<forall>e' \<in> set (objects world_title 1).
             toLowerCase (fst e') = toLowerCase (fst (''TITLE'', PStr ''t'')) \<longrightarrow> snd e' = snd (''TITLE'', PStr ''t'')"
    by (simp only: o list.set ball_simps insert_iff empty_iff simp_thms)
  have "map_of (objects w2 r) (toLowerCase (fst (''TITLE'', PStr ''t''))) =
          Some (PStr (prim_to_string (snd (''TITLE'', PStr ''t''))))"
    using p1 [THEN bspec, OF mem, THEN mp, OF conjI, OF np u] .
  then have title: "map_of (objects w2 r) ''title'' = Some (PStr ''t'')"
    by (simp only: fst_conv snd_conv l prim_to_string.simps)
  have fresh: "''id'' \<notin> toLowerCase ` fst ` set (objects world_title 1)"
    by (simp only: o list.set image_insert image_empty fst_conv l) simp
  have ni: "''id'' \<noteq> ''__proto__''" by simp
  have ident: "map_of (objects w2 r) ''id'' = Some (PStr ''list1'')"
    using p3 [THEN spec, THEN spec, THEN mp, OF conjI, OF a conjI, OF fresh ni] .
  from g title ident show ?thesis by (intro exI conjI)
qed

subsection \<open>Removal and the missing node\<close>

text \<open>
  C6, as stated, fails for the legacy class, the only one with a removal operation:
  after \<^verbatim>\<open>first.remove()\<close> the node reference is \<^verbatim>\<open>null\<close>, and reading the type raises
  TypeError; no node is created, although the last known type \<^verbatim>\<open>p\<close> is still cached.
\<close>

theorem removed_handle_is_not_recreated:
  "completion_of removed_p = Normal () \<and>
   f_tag (handle_of removed_p) = Null \<and>
   f_type (handle_of removed_p) = ''p'' \<and>
   completion_of (TagLegacy_get_type (handle_of removed_p) (world_of removed_p)) = Abrupt TypeError \<and>
   next_node (world_of (TagLegacy_get_type (handle_of removed_p) (world_of removed_p)))
     = next_node (world_of removed_p)"
  by code_simp

text \<open>
  C6, amended. \<^verbatim>\<open>remove\<close> on a legacy handle that holds an element or a text node returns
  normally, sets the node reference to \<^verbatim>\<open>null\<close> and detaches the node from its parent.
  The legacy class does not recreate a node: with the reference \<^verbatim>\<open>null\<close>, in any document,
  the getters of type, attributes, parent, children and relatives, \<^verbatim>\<open>toPosition\<close> and
  \<^verbatim>\<open>remove\<close> raise TypeError. A placeholder is created only by \<^verbatim>\<open>fix\<close> of the current class:
  for a handle without element it creates a new detached element named as
  \<^verbatim>\<open>stored.name\<close> says, or \<^verbatim>\<open>div\<close> when no name is stored.
\<close>

theorem remove_then_no_recreation:
  assumes "f_tag h = NodeRef n" and "kind_of w n = Some k" and "k \<noteq> Fragment"
  shows "TagLegacy_remove h w = (Normal (), h\<lparr>f_tag := Null\<rparr>, detach n w) \<and>
         parent_of (detach n w) n = None \<and>
         (\<forall>q. parent_of w n = Some q \<longrightarrow> n \<notin> set (children_of (detach n w) q)) \<and>
         TagLegacy_get_type (h\<lparr>f_tag := Null\<rparr>) w2 = (Abrupt TypeError, h\<lparr>f_tag := Null\<rparr>, w2) \<and>
         completion_of (TagLegacy_get_attributes (h\<lparr>f_tag := Null\<rparr>) w2) = Abrupt TypeError \<and>
         TagLegacy_get_parent (h\<lparr>f_tag := Null\<rparr>) w2 = (Abrupt TypeError, h\<lparr>f_tag := Null\<rparr>, w2) \<and>
         TagLegacy_get_children (h\<lparr>f_tag := Null\<rparr>) w2 = (Abrupt TypeError, h\<lparr>f_tag := Null\<rparr>, w2) \<and>
         TagLegacy_get_relatives (h\<lparr>f_tag := Null\<rparr>) w2 = (Abrupt TypeError, h\<lparr>f_tag := Null\<rparr>, w2) \<and>
         completion_of (TagLegacy_toPosition position (h\<lparr>f_tag := Null\<rparr>) w2) = Abrupt TypeError \<and>
         TagLegacy_remove (h\<lparr>f_tag := Null\<rparr>) w2 = (Abrupt TypeError, h\<lparr>f_tag := Null\<rparr>, w2) \<and>
         (\<not> truthy (t_element th) \<and>
          valid_name (case stored_name th of None \<Rightarrow> ''div'' | Some s \<Rightarrow> if s \<noteq> [] then s else ''div'') \<longrightarrow>
            Tag_fix th w2 =
              (Normal (), th\<lparr>t_element := NodeRef (next_node w2)\<rparr>,
               new_node (Element (toLowerCase (case stored_name th of None \<Rightarrow> ''div''
                                               | Some s \<Rightarrow> if s \<noteq> [] then s else ''div''))) w2))"
proof -
  have r: "TagLegacy_remove h w = (Normal (), h\<lparr>f_tag := Null\<rparr>, detach n w)"
    using assms by (cases k) (simp_all add: TagLegacy_remove_def)
  have d1: "parent_of (detach n w) n = None"
    by (simp add: detach_def split: option.splits)
  have d2: "\<forall>q. parent_of w n = Some q \<longrightarrow> n \<notin> set (children_of (detach n w) q)"
    by (simp add: detach_def)
  have gp: "TagLegacy_get_parent (h\<lparr>f_tag := Null\<rparr>) w2 = (Abrupt TypeError, h\<lparr>f_tag := Null\<rparr>, w2)" for w2
    by (simp add: TagLegacy_get_parent_def TagLegacy_get_tag_def read_parentNode_def)
  have gr: "TagLegacy_get_relatives (h\<lparr>f_tag := Null\<rparr>) w2 = (Abrupt TypeError, h\<lparr>f_tag := Null\<rparr>, w2)" for w2
    by (simp add: TagLegacy_get_relatives_def gp)
  have tp: "completion_of (TagLegacy_toPosition position (h\<lparr>f_tag := Null\<rparr>) w2) = Abrupt TypeError"
    by (simp add: TagLegacy_toPosition_def createDocumentFragment_def gr completion_of_def)
  have ga: "completion_of (TagLegacy_get_attributes (h\<lparr>f_tag := Null\<rparr>) w2) = Abrupt TypeError"
    by (simp add: TagLegacy_get_attributes_def TagLegacy_get_tag_def new_object_def completion_of_def)
  have fx: "\<not> truthy (t_element th) \<and>
          valid_name (case stored_name th of None \<Rightarrow> ''div'' | Some s \<Rightarrow> if s \<noteq> [] then s else ''div'') \<longrightarrow>
            Tag_fix th w2 =
              (Normal (), th\<lparr>t_element := NodeRef (next_node w2)\<rparr>,
               new_node (Element (toLowerCase (case stored_name th of None \<Rightarrow> ''div''
                                               | Some s \<Rightarrow> if s \<noteq> [] then s else ''div''))) w2)"
    by (simp add: Tag_fix_def createElement_def del: valid_name.simps)
  show ?thesis
    using r d1 d2 gp gr tp ga fx
    by (simp add: TagLegacy_get_type_def TagLegacy_get_children_def TagLegacy_get_tag_def TagLegacy_remove_def
        del: valid_name.simps)
qed

theorem remove_witness:
  "TagLegacy_remove (handle_of first_p) (world_of first_p) =
     (Normal (), (handle_of first_p)\<lparr>f_tag := Null\<rparr>, detached_world) \<and>
   parent_of (world_of first_p) 1 = Some 0 \<and>
   parent_of detached_world 1 = None \<and>
   1 \<notin> set (children_of detached_world 0) \<and>
   Tag_fix (tag_on_1\<lparr>t_element := Null\<rparr>) detached_world =
     (Normal (), tag_on_1\<lparr>t_element := NodeRef 2\<rparr>, new_node (Element ''div'') detached_world)"
proof -
  have t: "f_tag (handle_of first_p) = NodeRef 1" by code_simp
  have k: "kind_of (world_of first_p) 1 = Some (Element ''p'')" by code_simp
  have p: "parent_of (world_of first_p) 1 = Some 0" by code_simp
  have n: "next_node detached_world = 2" by code_simp
  have f: "\<not> truthy (t_element (tag_on_1\<lparr>t_element := Null\<rparr>)) \<and>
           valid_name (case stored_name (tag_on_1\<lparr>t_element := Null\<rparr>) of None \<Rightarrow> ''div''
                       | Some s \<Rightarrow> if s \<noteq> [] then s else ''div'')"
    using valid_name_div by (simp add: tag_on_1_def del: valid_name.simps)
  have s: "stored_name (tag_on_1\<lparr>t_element := Null\<rparr>) = None" by (simp add: tag_on_1_def)
  note i = remove_then_no_recreation [OF t k, of detached_world First "tag_on_1\<lparr>t_element := Null\<rparr>"]
  have i': "Element ''p'' \<noteq> Fragment" by simp
  from i [OF i'] p n f s
  show ?thesis by (simp add: detached_world_def toLowerCase_div del: valid_name.simps)
qed

end
